theory Spec2Isabelle
  imports Complex_Main "HOL-Library.Log_Nat" "HOL-Library.Monad_Syntax"
begin

section \<open>The asdr filter (libavfilter/af\_asdr.c)\<close>

text \<open>
  The filter has two audio inputs (reference and test) carrying planar floating-point
  samples.  For each channel it keeps two double-precision running totals:
  \<open>sum_u\<close> (the energy of the reference) and \<open>sum_uv\<close> (the energy of the
  difference), and at teardown logs \<open>20 * log10 (sum_u / sum_uv)\<close> per channel.

  Conventions of the model.
  \<^item> C \<open>int\<close> is a 32-bit integer.  Its values (channel, job and sample counts,
    return codes) are HOL integers, and the arithmetic whose result can leave the range
    of \<open>int\<close>, the products \<open>channels * jobnr\<close> and \<open>channels * (jobnr+1)\<close> of the kernel,
    is reduced to 32 bits in two's complement, as the compiled code computes it (ISO C
    leaves signed overflow undefined).  Division is C's truncating division; a zero
    divisor is undefined behaviour.
  \<^item> \<open>float\<close> and \<open>double\<close> are IEEE 754 binary32 and binary64 with the default
    rounding (to nearest, ties to even).  An expression is evaluated in the precision of
    its C type (\<open>FLT_EVAL_METHOD = 0\<close>, no contraction into fused multiply-add).
  \<^item> Undefined behaviour of the C program (a null or out-of-range access, division by
    zero) is the result \<open>None\<close>.
\<close>

subsection \<open>Floating-point values and arithmetic\<close>

text \<open>
  \<open>Finite s m e\<close> is the number \<open>(-1)^s * m * 2^e\<close>; a value may have several
  such representations, and both signed zeros exist (\<open>m = 0\<close>).  C's comparison
  operators are \<open>fp_eq\<close>, \<open>fp_lt\<close> and \<open>fp_le\<close>.
\<close>

datatype fpval = Finite bool nat int | Infinity bool | NaN

datatype ctype = CFloat | CDouble

fun prec :: "ctype \<Rightarrow> nat" where
  "prec CFloat = 24"
| "prec CDouble = 53"

text \<open>The exponent of the least significant bit of the subnormal numbers.\<close>

fun emin :: "ctype \<Rightarrow> int" where
  "emin CFloat = - 149"
| "emin CDouble = - 1074"

text \<open>Every finite number of the type is below \<open>2 ^ emax\<close> in magnitude.\<close>

fun emax :: "ctype \<Rightarrow> int" where
  "emax CFloat = 128"
| "emax CDouble = 1024"

text \<open>\<open>rne m k\<close> is \<open>m / 2^k\<close> rounded to the nearest integer, a tie to the even one.\<close>

definition rne :: "nat \<Rightarrow> nat \<Rightarrow> nat" where
  "rne m k =
     (let q = m div 2 ^ k; r = m mod 2 ^ k
      in if 2 * r < 2 ^ k then q
         else if 2 ^ k < 2 * r then q + 1
         else if even q then q else q + 1)"

text \<open>
  Rounding the exact number \<open>(-1)^s * m * 2^e\<close> into type \<open>t\<close>: a zero keeps its
  sign; otherwise \<open>q\<close> is the exponent of the last bit kept (\<open>prec t\<close> bits below the
  leading one, not below \<open>emin t\<close>), and a result of magnitude \<open>2 ^ emax t\<close> or more
  overflows to an infinity.
\<close>

definition fp_round :: "ctype \<Rightarrow> bool \<Rightarrow> nat \<Rightarrow> int \<Rightarrow> fpval" where
  "fp_round t s m e =
     (if m = 0 then Finite s 0 (emin t)
      else
        let q = max (e + bitlen (int m) - int (prec t)) (emin t);
            m' = (if q \<le> e then m * 2 ^ nat (e - q) else rne m (nat (q - e)))
        in if emax t < bitlen (int m') + q then Infinity s else Finite s m' q)"

fun fneg :: "fpval \<Rightarrow> fpval" where
  "fneg (Finite s m e) = Finite (\<not> s) m e"
| "fneg (Infinity s) = Infinity (\<not> s)"
| "fneg NaN = NaN"

text \<open>The signed significand of a finite number brought to the exponent \<open>e\<close>
  (\<open>e\<close> not above the number's own exponent).\<close>

definition aligned :: "int \<Rightarrow> bool \<Rightarrow> nat \<Rightarrow> int \<Rightarrow> int" where
  "aligned e s m e' = (if s then - 1 else 1) * int m * 2 ^ nat (e' - e)"

fun fadd :: "ctype \<Rightarrow> fpval \<Rightarrow> fpval \<Rightarrow> fpval" where
  "fadd t NaN y = NaN"
| "fadd t x NaN = NaN"
| "fadd t (Infinity s1) (Infinity s2) = (if s1 = s2 then Infinity s1 else NaN)"
| "fadd t (Infinity s1) (Finite s2 m2 e2) = Infinity s1"
| "fadd t (Finite s1 m1 e1) (Infinity s2) = Infinity s2"
| "fadd t (Finite s1 m1 e1) (Finite s2 m2 e2) =
     (let e = min e1 e2; i = aligned e s1 m1 e1 + aligned e s2 m2 e2
      in if i = 0 then Finite (s1 \<and> s2) 0 e
         else fp_round t (i < 0) (nat \<bar>i\<bar>) e)"

definition fsub :: "ctype \<Rightarrow> fpval \<Rightarrow> fpval \<Rightarrow> fpval" where
  "fsub t x y = fadd t x (fneg y)"

fun fmul :: "ctype \<Rightarrow> fpval \<Rightarrow> fpval \<Rightarrow> fpval" where
  "fmul t NaN y = NaN"
| "fmul t x NaN = NaN"
| "fmul t (Infinity s1) (Infinity s2) = Infinity (s1 \<noteq> s2)"
| "fmul t (Infinity s1) (Finite s2 m2 e2) = (if m2 = 0 then NaN else Infinity (s1 \<noteq> s2))"
| "fmul t (Finite s1 m1 e1) (Infinity s2) = (if m1 = 0 then NaN else Infinity (s1 \<noteq> s2))"
| "fmul t (Finite s1 m1 e1) (Finite s2 m2 e2) = fp_round t (s1 \<noteq> s2) (m1 * m2) (e1 + e2)"

text \<open>
  Division of finite numbers: the quotient of the significands is taken with
  \<open>prec t + 2\<close> bits and a sticky last bit for the remainder, which rounds as the exact
  quotient does.
\<close>

fun fdiv :: "ctype \<Rightarrow> fpval \<Rightarrow> fpval \<Rightarrow> fpval" where
  "fdiv t NaN y = NaN"
| "fdiv t x NaN = NaN"
| "fdiv t (Infinity s1) (Infinity s2) = NaN"
| "fdiv t (Infinity s1) (Finite s2 m2 e2) = Infinity (s1 \<noteq> s2)"
| "fdiv t (Finite s1 m1 e1) (Infinity s2) = Finite (s1 \<noteq> s2) 0 0"
| "fdiv t (Finite s1 m1 e1) (Finite s2 m2 e2) =
     (if m2 = 0 then (if m1 = 0 then NaN else Infinity (s1 \<noteq> s2))
      else let k = prec t + 2 + nat (bitlen (int m2));
               n = (m1 * 2 ^ k) div m2;
               sticky = (if (m1 * 2 ^ k) mod m2 = 0 then 0 else 1)
           in fp_round t (s1 \<noteq> s2) (2 * n + sticky) (e1 - e2 - int k - 1))"

text \<open>Conversion of a value to the type \<open>t\<close>; it is exact from float to double.\<close>

fun fp_cast :: "ctype \<Rightarrow> fpval \<Rightarrow> fpval" where
  "fp_cast t (Finite s m e) = fp_round t s m e"
| "fp_cast t x = x"

fun fp_lt :: "fpval \<Rightarrow> fpval \<Rightarrow> bool" where
  "fp_lt NaN y = False"
| "fp_lt x NaN = False"
| "fp_lt (Infinity s1) (Infinity s2) = (s1 \<and> \<not> s2)"
| "fp_lt (Infinity s1) (Finite s2 m2 e2) = s1"
| "fp_lt (Finite s1 m1 e1) (Infinity s2) = (\<not> s2)"
| "fp_lt (Finite s1 m1 e1) (Finite s2 m2 e2) =
     (aligned (min e1 e2) s1 m1 e1 < aligned (min e1 e2) s2 m2 e2)"

fun fp_eq :: "fpval \<Rightarrow> fpval \<Rightarrow> bool" where
  "fp_eq NaN y = False"
| "fp_eq x NaN = False"
| "fp_eq (Infinity s1) (Infinity s2) = (s1 = s2)"
| "fp_eq (Infinity s1) (Finite s2 m2 e2) = False"
| "fp_eq (Finite s1 m1 e1) (Infinity s2) = False"
| "fp_eq (Finite s1 m1 e1) (Finite s2 m2 e2) =
     (aligned (min e1 e2) s1 m1 e1 = aligned (min e1 e2) s2 m2 e2)"

definition fp_le :: "fpval \<Rightarrow> fpval \<Rightarrow> bool" where
  "fp_le x y = (fp_lt x y \<or> fp_eq x y)"


text \<open>The sign bit; a NaN counts as unsigned.\<close>

fun fp_sign :: "fpval \<Rightarrow> bool" where
  "fp_sign (Finite s m e) = s"
| "fp_sign (Infinity s) = s"
| "fp_sign NaN = False"

text \<open>The constant \<open>0.\<close>, which is also what zeroed memory holds, and small integers.\<close>

definition fp_zero :: fpval where
  "fp_zero = Finite False 0 0"

definition fp_of_nat :: "nat \<Rightarrow> fpval" where
  "fp_of_nat n = Finite False n 0"


subsection \<open>C integers and array reads\<close>

text \<open>The range of \<open>int\<close>, and the 32-bit value (two's complement) of an \<open>int\<close>
  expression whose mathematical value is \<open>x\<close>.\<close>

definition INT_MAX :: int where
  "INT_MAX = 2147483647"

definition INT_MIN :: int where
  "INT_MIN = - 2147483648"

definition c_int :: "int \<Rightarrow> int" where
  "c_int x = (x + 2147483648) mod 4294967296 - 2147483648"

definition c_add :: "int \<Rightarrow> int \<Rightarrow> int" where
  "c_add a b = c_int (a + b)"

definition c_mul :: "int \<Rightarrow> int \<Rightarrow> int" where
  "c_mul a b = c_int (a * b)"

text \<open>Division truncates towards zero; dividing by zero, and \<open>INT_MIN / -1\<close>, are
  undefined.\<close>

definition c_div :: "int \<Rightarrow> int \<Rightarrow> int option" where
  "c_div a b =
     (if b = 0 \<or> (a = INT_MIN \<and> b = - 1) then None
      else Some (sgn a * sgn b * (\<bar>a\<bar> div \<bar>b\<bar>)))"

text \<open>Reading element \<open>i\<close> of an array: undefined outside the array.\<close>

definition nth_opt :: "'a list \<Rightarrow> int \<Rightarrow> 'a option" where
  "nth_opt xs i = (if 0 \<le> i \<and> i < int (length xs) then Some (xs ! nat i) else None)"

definition FFMIN :: "int \<Rightarrow> int \<Rightarrow> int" where
  "FFMIN a b = (if a > b then b else a)"

text \<open>\<open>AVERROR(ENOMEM)\<close>, \<open>AVERROR(EINVAL)\<close> and \<open>FFERROR_NOT_READY\<close>
  (the negated tag \<open>'N','R','D','Y'\<close>).\<close>

definition AVERROR_ENOMEM :: int where
  "AVERROR_ENOMEM = - 12"

definition AVERROR_EINVAL :: int where
  "AVERROR_EINVAL = - 22"

definition FFERROR_NOT_READY :: int where
  "FFERROR_NOT_READY = - (78 + 82 * 2 ^ 8 + 68 * 2 ^ 16 + 89 * 2 ^ 24)"

subsection \<open>Frames and the private context\<close>

datatype AVSampleFormat =
    AV_SAMPLE_FMT_NONE
  | AV_SAMPLE_FMT_U8 | AV_SAMPLE_FMT_S16 | AV_SAMPLE_FMT_S32
  | AV_SAMPLE_FMT_FLT | AV_SAMPLE_FMT_DBL
  | AV_SAMPLE_FMT_U8P | AV_SAMPLE_FMT_S16P | AV_SAMPLE_FMT_S32P
  | AV_SAMPLE_FMT_FLTP | AV_SAMPLE_FMT_DBLP
  | AV_SAMPLE_FMT_S64 | AV_SAMPLE_FMT_S64P

text \<open>An audio frame in a planar format: \<open>extended_data\<close> has one array of samples per
  channel, \<open>nb_channels\<close> is \<open>ch_layout.nb_channels\<close>.\<close>

record AVFrame =
  nb_samples :: int
  nb_channels :: int
  extended_data :: "fpval list list"
  pts :: int

text \<open>The two instances of the macro \<open>SDR_FILTER\<close>, as values of the function pointer
  \<open>filter\<close>.\<close>

datatype sdr_fn = Sdr_fltp | Sdr_dblp

text \<open>A null pointer is \<open>None\<close>; \<open>cache_0\<close> and \<open>cache_1\<close> are \<open>cache[0]\<close> and
  \<open>cache[1]\<close>.\<close>

record AudioSDRContext =
  channels :: int
  sum_u :: "fpval list option"
  sum_uv :: "fpval list option"
  cache_0 :: "AVFrame option"
  cache_1 :: "AVFrame option"
  filter_fn :: "sdr_fn option"

subsection \<open>The kernel \<open>SDR_FILTER(name, type)\<close>\<close>

text \<open>The operand of \<open>+=\<close> on a double: a float value is converted, a double is not.\<close>

fun promote :: "ctype \<Rightarrow> fpval \<Rightarrow> fpval" where
  "promote CFloat x = fp_cast CDouble x"
| "promote CDouble x = x"

text \<open>The loop over the samples \<open>n\<close> of one channel; the products and the difference
  have the type of the samples.\<close>

fun sample_loop ::
  "ctype \<Rightarrow> fpval list \<Rightarrow> fpval list \<Rightarrow> int list \<Rightarrow> fpval \<times> fpval \<Rightarrow> (fpval \<times> fpval) option" where
  "sample_loop T us vs [] acc = Some acc"
| "sample_loop T us vs (n # ns) (su, suv) =
     do {
       a \<leftarrow> nth_opt us n;
       b \<leftarrow> nth_opt vs n;
       let su' = fadd CDouble su (promote T (fmul T a a));
       let suv' = fadd CDouble suv (promote T (fmul T (fsub T a b) (fsub T a b)));
       sample_loop T us vs ns (su', suv')
     }"

text \<open>The loop over the channels \<open>ch\<close> of one job.\<close>

fun channel_loop ::
  "ctype \<Rightarrow> AVFrame \<Rightarrow> AVFrame option \<Rightarrow> int \<Rightarrow> int list \<Rightarrow> AudioSDRContext
     \<Rightarrow> AudioSDRContext option" where
  "channel_loop T u vo nb [] s = Some s"
| "channel_loop T u vo nb (ch # chs) s =
     do {
       us \<leftarrow> nth_opt (extended_data u) ch;
       v \<leftarrow> vo;
       vs \<leftarrow> nth_opt (extended_data v) ch;
       (su, suv) \<leftarrow> sample_loop T us vs [0..nb - 1] (fp_zero, fp_zero);
       auv \<leftarrow> sum_uv s;
       x \<leftarrow> nth_opt auv ch;
       let s1 = s\<lparr>sum_uv := Some (auv[nat ch := fadd CDouble x suv])\<rparr>;
       au \<leftarrow> sum_u s1;
       y \<leftarrow> nth_opt au ch;
       let s2 = s1\<lparr>sum_u := Some (au[nat ch := fadd CDouble y su])\<rparr>;
       channel_loop T u vo nb chs s2
     }"

text \<open>The bounds \<open>start = (channels * jobnr) / nb_jobs\<close> and
  \<open>end = (channels * (jobnr+1)) / nb_jobs\<close> of the channels of job \<open>jobnr\<close>; the
  products are \<open>int\<close> products.\<close>

definition job_start :: "int \<Rightarrow> int \<Rightarrow> int \<Rightarrow> int option" where
  "job_start chans jobnr nb_jobs = c_div (c_mul chans jobnr) nb_jobs"

definition job_end :: "int \<Rightarrow> int \<Rightarrow> int \<Rightarrow> int option" where
  "job_end chans jobnr nb_jobs = c_div (c_mul chans (c_add jobnr 1)) nb_jobs"

definition SDR_FILTER :: "ctype \<Rightarrow> AudioSDRContext \<Rightarrow> int \<Rightarrow> int \<Rightarrow> AudioSDRContext option" where
  "SDR_FILTER T s jobnr nb_jobs =
     do {
       u \<leftarrow> cache_0 s;
       let chans = nb_channels u;
       start \<leftarrow> job_start chans jobnr nb_jobs;
       end' \<leftarrow> job_end chans jobnr nb_jobs;
       channel_loop T u (cache_1 s) (nb_samples u) [start..end' - 1] s
     }"

definition sdr_fltp :: "AudioSDRContext \<Rightarrow> int \<Rightarrow> int \<Rightarrow> AudioSDRContext option" where
  "sdr_fltp = SDR_FILTER CFloat"

definition sdr_dblp :: "AudioSDRContext \<Rightarrow> int \<Rightarrow> int \<Rightarrow> AudioSDRContext option" where
  "sdr_dblp = SDR_FILTER CDouble"

fun call_filter :: "sdr_fn \<Rightarrow> AudioSDRContext \<Rightarrow> int \<Rightarrow> int \<Rightarrow> AudioSDRContext option" where
  "call_filter Sdr_fltp = sdr_fltp"
| "call_filter Sdr_dblp = sdr_dblp"

text \<open>The sample type of each instance.\<close>

fun sample_type :: "sdr_fn \<Rightarrow> ctype" where
  "sample_type Sdr_fltp = CFloat"
| "sample_type Sdr_dblp = CDouble"


subsection \<open>The host: links, frame queues and job execution\<close>

text \<open>
  The filter graph around the filter (\<open>avfilter.c\<close>, \<open>filters.h\<close>) is not part of the
  file.  Its links are modelled from the interface the specification gives for them: a
  frame queue per input, a sink downstream, and a facility that runs the jobs.
\<close>

text \<open>Modelled from the spec: the frame queue of an input (the host's \<open>AVFilterLink\<close>
  is missing).  \<open>fifo\<close> holds the buffered samples, one list per channel, \<open>fault\<close> an
  error that the stream reports at the next withdrawal, \<open>in_status\<close> a terminal status
  with its timestamp.\<close>

record input_link =
  in_format :: AVSampleFormat
  in_channels :: int
  fifo :: "fpval list list"
  fifo_pts :: int
  fault :: "int option"
  in_status :: "(int \<times> int) option"
  in_frame_wanted :: bool

text \<open>Modelled from the spec: the downstream sink (the host's \<open>AVFilterLink\<close> is
  missing).  \<open>sent\<close> lists the blocks forwarded so far, the oldest first.\<close>

record output_link =
  out_channels :: int
  out_status :: "(int \<times> int) option"
  out_frame_wanted :: bool
  sent :: "AVFrame list"

text \<open>\<open>input0\<close> and \<open>input1\<close> are \<open>inputs[0]\<close> and \<open>inputs[1]\<close>, \<open>output0\<close> is
  \<open>outputs[0]\<close>; \<open>nb_threads\<close> is what \<open>ff_filter_get_nb_threads\<close> returns.\<close>

record AVFilterContext =
  priv :: AudioSDRContext
  input0 :: input_link
  input1 :: input_link
  output0 :: output_link
  is_disabled :: bool
  nb_threads :: int

definition inputs :: "AVFilterContext \<Rightarrow> nat \<Rightarrow> input_link" where
  "inputs ctx i = (if i = 0 then input0 ctx else input1 ctx)"

definition set_input :: "nat \<Rightarrow> input_link \<Rightarrow> AVFilterContext \<Rightarrow> AVFilterContext" where
  "set_input i l ctx = (if i = 0 then ctx\<lparr>input0 := l\<rparr> else ctx\<lparr>input1 := l\<rparr>)"

definition set_cache :: "nat \<Rightarrow> AVFrame option \<Rightarrow> AudioSDRContext \<Rightarrow> AudioSDRContext" where
  "set_cache i f s = (if i = 0 then s\<lparr>cache_0 := f\<rparr> else s\<lparr>cache_1 := f\<rparr>)"

text \<open>\<open>av_frame_free(&s->cache[i])\<close> releases the frame and clears the pointer.\<close>

definition av_frame_free :: "nat \<Rightarrow> AudioSDRContext \<Rightarrow> AudioSDRContext" where
  "av_frame_free i s = set_cache i None s"

text \<open>Modelled from the spec: "query buffered sample count"
  (\<open>ff_inlink_queued_samples\<close> is missing).\<close>

definition ff_inlink_queued_samples :: "input_link \<Rightarrow> int" where
  "ff_inlink_queued_samples l = (case fifo l of [] \<Rightarrow> 0 | p # ps \<Rightarrow> int (length p))"

text \<open>Modelled from the spec: "exact-length withdrawal of N samples as a block (fails
  if N exceeds availability)" (\<open>ff_inlink_consume_samples\<close> is missing).  The result is
  the return code, the block stored through the frame pointer and the link afterwards; a
  withdrawal fails with the stream's reported error, or when fewer than \<open>min\<close> samples
  are buffered.  \<open>take_block l n\<close> is the block of the first \<open>n\<close> buffered samples
  of every channel, \<open>drop_block l n\<close> the link without them.\<close>

definition take_block :: "input_link \<Rightarrow> int \<Rightarrow> AVFrame" where
  "take_block l n =
     \<lparr>nb_samples = n, nb_channels = in_channels l,
      extended_data = map (take (nat n)) (fifo l), pts = fifo_pts l\<rparr>"

definition drop_block :: "input_link \<Rightarrow> int \<Rightarrow> input_link" where
  "drop_block l n = l\<lparr>fifo := map (drop (nat n)) (fifo l), fifo_pts := fifo_pts l + n\<rparr>"

definition ff_inlink_consume_samples ::
  "input_link \<Rightarrow> int \<Rightarrow> int \<Rightarrow> int \<times> AVFrame option \<times> input_link" where
  "ff_inlink_consume_samples l min' max' =
     (case fault l of
        Some err \<Rightarrow> (err, None, l)
      | None \<Rightarrow>
          if ff_inlink_queued_samples l < min' then (AVERROR_EINVAL, None, l)
          else
            let n = FFMIN max' (ff_inlink_queued_samples l)
            in (1, Some (take_block l n), drop_block l n))"

text \<open>Modelled from the spec: "a downstream sink accepting one forwarded block at a
  time" (\<open>ff_filter_frame\<close> is missing).\<close>

definition ff_filter_frame :: "output_link \<Rightarrow> AVFrame \<Rightarrow> int \<times> output_link" where
  "ff_filter_frame l frame = (0, l\<lparr>sent := sent l @ [frame]\<rparr>)"

text \<open>Modelled from the spec: "end-of-stream query returning a status code and an
  associated terminal timestamp" (\<open>ff_inlink_acknowledge_status\<close> is missing).\<close>

definition ff_inlink_acknowledge_status :: "input_link \<Rightarrow> (int \<times> int) option" where
  "ff_inlink_acknowledge_status l = in_status l"

text \<open>Modelled from the spec: propagating a status signal with its timestamp downstream
  (\<open>ff_outlink_set_status\<close> is missing).\<close>

definition ff_outlink_set_status :: "output_link \<Rightarrow> int \<Rightarrow> int \<Rightarrow> output_link" where
  "ff_outlink_set_status l status pts' = l\<lparr>out_status := Some (status, pts')\<rparr>"

text \<open>Modelled from the spec: "a downstream-ready query" (\<open>ff_outlink_frame_wanted\<close>
  is missing).\<close>

definition ff_outlink_frame_wanted :: "output_link \<Rightarrow> bool" where
  "ff_outlink_frame_wanted l = out_frame_wanted l"

text \<open>Modelled from the spec: "a request-more-data operation"
  (\<open>ff_inlink_request_frame\<close> is missing).\<close>

definition ff_inlink_request_frame :: "input_link \<Rightarrow> input_link" where
  "ff_inlink_request_frame l = l\<lparr>in_frame_wanted := True\<rparr>"

definition ff_filter_get_nb_threads :: "AVFilterContext \<Rightarrow> int" where
  "ff_filter_get_nb_threads ctx = nb_threads ctx"

text \<open>Running a list of jobs one after the other; undefined behaviour in a job ends the
  run.\<close>

fun run_jobs ::
  "(AudioSDRContext \<Rightarrow> int \<Rightarrow> int \<Rightarrow> AudioSDRContext option) \<Rightarrow> int \<Rightarrow> int list
     \<Rightarrow> AudioSDRContext \<Rightarrow> AudioSDRContext option" where
  "run_jobs func nb_jobs [] s = Some s"
| "run_jobs func nb_jobs (jobnr # js) s =
     do { s' \<leftarrow> func s jobnr nb_jobs; run_jobs func nb_jobs js s' }"

text \<open>Modelled from the spec: "a parallel-execution facility accepting a function, an
  argument, and a job count, invoked synchronously (returns only after all shards
  complete)" (\<open>ff_filter_execute\<close> is missing).  The jobs \<open>0, \<dots>, nb_jobs - 1\<close> run in
  this order (any other order gives the same context, \<open>run_jobs_any_order\<close> below);
  calling through a null function pointer is undefined.\<close>

definition ff_filter_execute ::
  "sdr_fn option \<Rightarrow> int \<Rightarrow> AudioSDRContext \<Rightarrow> AudioSDRContext option" where
  "ff_filter_execute func nb_jobs s =
     run_jobs (\<lambda>s jobnr n. do { f \<leftarrow> func; call_filter f s jobnr n }) nb_jobs
       [0..nb_jobs - 1] s"

subsection \<open>\<open>activate\<close>\<close>

text \<open>The first loop of \<open>activate\<close>: withdrawing a block from each input into the
  cache.  \<open>Inl\<close> is the early return with the error code.\<close>

fun consume_loop ::
  "nat list \<Rightarrow> int \<Rightarrow> AVFilterContext \<Rightarrow> (int \<times> AVFilterContext) + AVFilterContext" where
  "consume_loop [] available ctx = Inr ctx"
| "consume_loop (i # is) available ctx =
     (let (ret, frame, l) = ff_inlink_consume_samples (inputs ctx i) available available;
          ctx1 = set_input i l (ctx\<lparr>priv := set_cache i frame (priv ctx)\<rparr>)
      in if ret < 0
         then Inl (ret, ctx1\<lparr>priv := av_frame_free 1 (av_frame_free 0 (priv ctx1))\<rparr>)
         else consume_loop is available ctx1)"

text \<open>The second loop: the first input with a terminal status hands it to the output.
  \<open>Some\<close> is the early return (with code 0).\<close>

fun status_loop :: "nat list \<Rightarrow> AVFilterContext \<Rightarrow> AVFilterContext option" where
  "status_loop [] ctx = None"
| "status_loop (i # is) ctx =
     (case ff_inlink_acknowledge_status (inputs ctx i) of
        Some (status, pts') \<Rightarrow>
          Some (ctx\<lparr>output0 := ff_outlink_set_status (output0 ctx) status pts'\<rparr>)
      | None \<Rightarrow> status_loop is ctx)"

text \<open>The third loop: a frame is requested from each input that has nothing buffered.\<close>

fun request_loop :: "nat list \<Rightarrow> AVFilterContext \<Rightarrow> AVFilterContext" where
  "request_loop [] ctx = ctx"
| "request_loop (i # is) ctx =
     (if ff_inlink_queued_samples (inputs ctx i) > 0 then request_loop is ctx
      else request_loop is (set_input i (ff_inlink_request_frame (inputs ctx i)) ctx))"

text \<open>The job count that \<open>activate\<close> passes to \<open>ff_filter_execute\<close>.\<close>

definition activate_nb_jobs :: "AVFilterContext \<Rightarrow> int" where
  "activate_nb_jobs ctx = FFMIN (out_channels (output0 ctx)) (ff_filter_get_nb_threads ctx)"

text \<open>
  \<open>activate\<close>.  The macro \<open>FF_FILTER_FORWARD_STATUS_BACK_ALL\<close> of its first line is
  defined in \<open>filters.h\<close>, outside the file; it is the parameter \<open>forward_status_back\<close>,
  which gives \<open>Some ctx'\<close> when the macro changes the context to \<open>ctx'\<close> and returns 0
  from \<open>activate\<close>, and \<open>None\<close> when control passes on.  The result is the return code
  with the context afterwards.

  The body is \<open>activate_with\<close>, whose first parameter \<open>execute\<close> stands for the host's
  \<open>ff_filter_execute\<close>: what \<open>activate\<close> passes to the host can then be stated for every
  execution facility.  \<open>activate\<close> itself runs with the facility modelled above.
\<close>

definition activate_with ::
  "(sdr_fn option \<Rightarrow> int \<Rightarrow> AudioSDRContext \<Rightarrow> AudioSDRContext option)
     \<Rightarrow> (AVFilterContext \<Rightarrow> AVFilterContext option) \<Rightarrow> AVFilterContext
     \<Rightarrow> (int \<times> AVFilterContext) option" where
  "activate_with execute forward_status_back ctx =
     (case forward_status_back ctx of
        Some ctx' \<Rightarrow> Some (0, ctx')
      | None \<Rightarrow>
          let available = FFMIN (ff_inlink_queued_samples (inputs ctx 0))
                                (ff_inlink_queued_samples (inputs ctx 1))
          in if available > 0 then
               (case consume_loop [0, 1] available ctx of
                  Inl r \<Rightarrow> Some r
                | Inr ctx1 \<Rightarrow>
                    do {
                      s1 \<leftarrow> (if \<not> is_disabled ctx1
                             then execute (filter_fn (priv ctx1))
                                    (activate_nb_jobs ctx1) (priv ctx1)
                             else Some (priv ctx1));
                      let s2 = av_frame_free 1 s1;
                      out \<leftarrow> cache_0 s2;
                      let s3 = s2\<lparr>cache_0 := None\<rparr>;
                      let (ret, l) = ff_filter_frame (output0 ctx1) out;
                      Some (ret, ctx1\<lparr>priv := s3, output0 := l\<rparr>)
                    })
             else
               (case status_loop [0, 1] ctx of
                  Some ctx' \<Rightarrow> Some (0, ctx')
                | None \<Rightarrow>
                    if ff_outlink_frame_wanted (output0 ctx)
                    then Some (0, request_loop [0, 1] ctx)
                    else Some (FFERROR_NOT_READY, ctx)))"

definition activate ::
  "(AVFilterContext \<Rightarrow> AVFilterContext option) \<Rightarrow> AVFilterContext
     \<Rightarrow> (int \<times> AVFilterContext) option" where
  "activate = activate_with ff_filter_execute"

subsection \<open>\<open>config_output\<close> and \<open>uninit\<close>\<close>

text \<open>\<open>av_calloc\<close> gives zeroed memory or, when the allocator fails, a null pointer;
  whether it succeeds is the parameter \<open>ok\<close>.\<close>

definition av_calloc :: "bool \<Rightarrow> int \<Rightarrow> fpval list option" where
  "av_calloc ok nmemb = (if ok then Some (replicate (nat nmemb) fp_zero) else None)"

definition config_output :: "bool \<Rightarrow> bool \<Rightarrow> AVFilterContext \<Rightarrow> int \<times> AVFilterContext" where
  "config_output ok_u ok_uv ctx =
     (let inlink = inputs ctx 0;
          s1 = (priv ctx)\<lparr>channels := in_channels inlink\<rparr>;
          s2 = s1\<lparr>filter_fn :=
                    Some (if in_format inlink = AV_SAMPLE_FMT_FLTP then Sdr_fltp else Sdr_dblp)\<rparr>;
          s3 = s2\<lparr>sum_u := av_calloc ok_u (out_channels (output0 ctx))\<rparr>;
          s4 = s3\<lparr>sum_uv := av_calloc ok_uv (out_channels (output0 ctx))\<rparr>
      in if sum_u s4 = None \<or> sum_uv s4 = None
         then (AVERROR_ENOMEM, ctx\<lparr>priv := s4\<rparr>)
         else (0, ctx\<lparr>priv := s4\<rparr>))"

text \<open>The list \<open>FILTER_SAMPLEFMTS\<close> of the filter's definition \<open>ff_af_asdr\<close>.\<close>

definition ff_af_asdr_sample_fmts :: "AVSampleFormat list" where
  "ff_af_asdr_sample_fmts = [AV_SAMPLE_FMT_FLTP, AV_SAMPLE_FMT_DBLP]"

text \<open>Modelled from the spec: the configuration of the stream by the host, whose format
  negotiation is missing (\<open>avfiltergraph.c\<close>).  "A negotiated stream configuration
  supplying channel count and one of exactly two accepted sample encodings (32-bit or
  64-bit floating point planar); configuration must fail with an unsupported-format error
  for anything else."  The accepted encodings are those of the filter's list
  \<open>FILTER_SAMPLEFMTS\<close>; for one of them the host calls \<open>config_output\<close>, the
  \<open>config_props\<close> of the output pad, and the result is its return code with the context
  afterwards.\<close>

datatype config_result = Unsupported_format | Config_output int AVFilterContext

definition configure :: "bool \<Rightarrow> bool \<Rightarrow> AVFilterContext \<Rightarrow> config_result" where
  "configure ok_u ok_uv ctx =
     (if in_format (inputs ctx 0) \<in> set ff_af_asdr_sample_fmts
      then (case config_output ok_u ok_uv ctx of (ret, ctx') \<Rightarrow> Config_output ret ctx')
      else Unsupported_format)"

text \<open>
  \<open>log10\<close> of the C library: the results at zero, at negative numbers, at the infinities
  and at NaN are those of the C standard (Annex F); the results at the positive finite
  numbers are the library's, the parameter \<open>L\<close>.
\<close>

fun c_log10 :: "(nat \<Rightarrow> int \<Rightarrow> fpval) \<Rightarrow> fpval \<Rightarrow> fpval" where
  "c_log10 L NaN = NaN"
| "c_log10 L (Infinity s) = (if s then NaN else Infinity False)"
| "c_log10 L (Finite s m e) =
     (if m = 0 then Infinity True else if s then NaN else L m e)"

text \<open>The value logged for channel \<open>ch\<close>:
  \<open>20. * log10(s->sum_u[ch] / s->sum_uv[ch])\<close>.\<close>

definition sdr_db :: "(nat \<Rightarrow> int \<Rightarrow> fpval) \<Rightarrow> fpval \<Rightarrow> fpval \<Rightarrow> fpval" where
  "sdr_db L u uv = fmul CDouble (fp_of_nat 20) (c_log10 L (fdiv CDouble u uv))"

fun log_loop ::
  "(nat \<Rightarrow> int \<Rightarrow> fpval) \<Rightarrow> AudioSDRContext \<Rightarrow> int list \<Rightarrow> (int \<times> fpval) list option" where
  "log_loop L s [] = Some []"
| "log_loop L s (ch # chs) =
     do {
       au \<leftarrow> sum_u s;
       u \<leftarrow> nth_opt au ch;
       auv \<leftarrow> sum_uv s;
       uv \<leftarrow> nth_opt auv ch;
       rest \<leftarrow> log_loop L s chs;
       Some ((ch, sdr_db L u uv) # rest)
     }"

text \<open>\<open>uninit\<close>: the lines logged (channel and value) and the context afterwards.\<close>

definition uninit ::
  "(nat \<Rightarrow> int \<Rightarrow> fpval) \<Rightarrow> AVFilterContext \<Rightarrow> ((int \<times> fpval) list \<times> AVFilterContext) option" where
  "uninit L ctx =
     do {
       let s = priv ctx;
       lines \<leftarrow> log_loop L s [0..channels s - 1];
       let s1 = av_frame_free 1 (av_frame_free 0 s);
       let s2 = s1\<lparr>sum_u := None\<rparr>;
       let s3 = s2\<lparr>sum_uv := None\<rparr>;
       Some (lines, ctx\<lparr>priv := s3\<rparr>)
     }"


subsection \<open>Block sums and well-formed states\<close>

text \<open>
  The two local sums that the kernel forms for one channel of a block pair
  (\<open>sample_loop_block\<close> below), written as folds over the samples, from 0 and in sample
  order.  The sums are double-precision; each product, and the difference, is taken in
  the type \<open>T\<close> of the samples and then converted to double.  For \<open>T = CDouble\<close> every
  operation is a double-precision operation.
\<close>

definition block_energy :: "ctype \<Rightarrow> fpval list \<Rightarrow> fpval" where
  "block_energy T us = foldl (\<lambda>acc u. fadd CDouble acc (promote T (fmul T u u))) fp_zero us"

definition block_distortion :: "ctype \<Rightarrow> fpval list \<Rightarrow> fpval list \<Rightarrow> fpval" where
  "block_distortion T us vs =
     foldl (\<lambda>acc (u, v). fadd CDouble acc (promote T (fmul T (fsub T u v) (fsub T u v))))
       fp_zero (zip us vs)"

text \<open>
  The sums as the specification words them, \<open>\<Sum> reference\<^sup>2\<close> and
  \<open>\<Sum> (reference - test)\<^sup>2\<close> with the samples "promoted to double precision during
  accumulation regardless of storage width": every sample is converted to double first,
  and the difference, the products and the sums are double-precision operations, from 0
  and in sample order.
\<close>

definition spec_energy :: "ctype \<Rightarrow> fpval list \<Rightarrow> fpval" where
  "spec_energy T us =
     foldl (\<lambda>acc u. fadd CDouble acc (fmul CDouble (promote T u) (promote T u))) fp_zero us"

definition spec_distortion :: "ctype \<Rightarrow> fpval list \<Rightarrow> fpval list \<Rightarrow> fpval" where
  "spec_distortion T us vs =
     foldl (\<lambda>acc (u, v). fadd CDouble acc
              (fmul CDouble (fsub CDouble (promote T u) (promote T v))
                            (fsub CDouble (promote T u) (promote T v))))
       fp_zero (zip us vs)"

text \<open>One add of the block's sum into the total of every channel \<open>ch\<close> with
  \<open>a \<le> ch < b\<close>.\<close>

definition acc_energy :: "ctype \<Rightarrow> AVFrame \<Rightarrow> int \<Rightarrow> int \<Rightarrow> fpval list \<Rightarrow> fpval list" where
  "acc_energy T u a b au =
     map (\<lambda>ch. if a \<le> int ch \<and> int ch < b
                then fadd CDouble (au ! ch) (block_energy T (extended_data u ! ch))
                else au ! ch) [0..<length au]"

definition acc_distortion ::
  "ctype \<Rightarrow> AVFrame \<Rightarrow> AVFrame \<Rightarrow> int \<Rightarrow> int \<Rightarrow> fpval list \<Rightarrow> fpval list" where
  "acc_distortion T u v a b auv =
     map (\<lambda>ch. if a \<le> int ch \<and> int ch < b
                then fadd CDouble (auv ! ch)
                       (block_distortion T (extended_data u ! ch) (extended_data v ! ch))
                else auv ! ch) [0..<length auv]"

definition accumulated ::
  "ctype \<Rightarrow> AVFrame \<Rightarrow> AVFrame \<Rightarrow> int \<Rightarrow> int \<Rightarrow> AudioSDRContext \<Rightarrow> AudioSDRContext" where
  "accumulated T u v a b s =
     s\<lparr>sum_u := map_option (acc_energy T u a b) (sum_u s),
       sum_uv := map_option (acc_distortion T u v a b) (sum_uv s)\<rparr>"

text \<open>The same add for the channels that satisfy \<open>P\<close>.\<close>

definition accumulated_on ::
  "ctype \<Rightarrow> AVFrame \<Rightarrow> AVFrame \<Rightarrow> (nat \<Rightarrow> bool) \<Rightarrow> AudioSDRContext \<Rightarrow> AudioSDRContext" where
  "accumulated_on T u v P s =
     s\<lparr>sum_u := map_option
         (\<lambda>au. map (\<lambda>ch. if P ch
                          then fadd CDouble (au ! ch) (block_energy T (extended_data u ! ch))
                          else au ! ch) [0..<length au]) (sum_u s),
       sum_uv := map_option
         (\<lambda>auv. map (\<lambda>ch. if P ch
                          then fadd CDouble (auv ! ch)
                                 (block_distortion T (extended_data u ! ch) (extended_data v ! ch))
                          else auv ! ch) [0..<length auv]) (sum_uv s)\<rparr>"

text \<open>A block of \<open>c\<close> channels with \<open>n\<close> samples in each plane; two such blocks are an
  aligned pair.\<close>

definition wf_frame :: "int \<Rightarrow> int \<Rightarrow> AVFrame \<Rightarrow> bool" where
  "wf_frame c n f =
     (nb_channels f = c \<and> nb_samples f = n \<and> 0 \<le> n \<and> length (extended_data f) = nat c
      \<and> list_all (\<lambda>p. length p = nat n) (extended_data f))"

text \<open>Both accumulator arrays are allocated with \<open>c\<close> entries.\<close>

definition allocated :: "int \<Rightarrow> AudioSDRContext \<Rightarrow> bool" where
  "allocated c s =
     (case (sum_u s, sum_uv s) of
        (Some au, Some auv) \<Rightarrow> length au = nat c \<and> length auv = nat c
      | _ \<Rightarrow> False)"

text \<open>An input of \<open>c\<close> channels: every plane of its queue holds the same number of
  samples, and an error code is negative.\<close>

definition wf_link :: "int \<Rightarrow> input_link \<Rightarrow> bool" where
  "wf_link c l =
     (in_channels l = c \<and> length (fifo l) = nat c
      \<and> list_all (\<lambda>p. int (length p) = ff_inlink_queued_samples l) (fifo l)
      \<and> (case fault l of None \<Rightarrow> True | Some err \<Rightarrow> err < 0))"

text \<open>A context after a successful configuration with \<open>c\<close> channels, whose channel
  and thread counts keep the \<open>int\<close> products of the kernel in the range of \<open>int\<close>.\<close>

definition wf_ctx :: "int \<Rightarrow> AVFilterContext \<Rightarrow> bool" where
  "wf_ctx c ctx =
     (1 \<le> c \<and> wf_link c (input0 ctx) \<and> wf_link c (input1 ctx)
      \<and> out_channels (output0 ctx) = c \<and> allocated c (priv ctx)
      \<and> filter_fn (priv ctx) \<noteq> None \<and> 1 \<le> nb_threads ctx
      \<and> c * min c (nb_threads ctx) \<le> INT_MAX)"

text \<open>No total has its sign bit set.\<close>

definition unsigned_totals :: "AudioSDRContext \<Rightarrow> bool" where
  "unsigned_totals s =
     (case (sum_u s, sum_uv s) of
        (Some au, Some auv) \<Rightarrow>
          list_all (\<lambda>x. \<not> fp_sign x) au \<and> list_all (\<lambda>x. \<not> fp_sign x) auv
      | _ \<Rightarrow> True)"


subsection \<open>Example contexts\<close>

text \<open>A context as the host creates it: zeroed private data, two inputs holding the
  given planes in the given format, nothing sent downstream.\<close>

definition ex_priv :: AudioSDRContext where
  "ex_priv = \<lparr>channels = 0, sum_u = None, sum_uv = None, cache_0 = None, cache_1 = None,
               filter_fn = None\<rparr>"

definition ex_in :: "AVSampleFormat \<Rightarrow> fpval list list \<Rightarrow> input_link" where
  "ex_in fmt planes =
     \<lparr>in_format = fmt, in_channels = int (length planes), fifo = planes, fifo_pts = 0,
      fault = None, in_status = None, in_frame_wanted = False\<rparr>"

definition ex_out :: "int \<Rightarrow> output_link" where
  "ex_out c = \<lparr>out_channels = c, out_status = None, out_frame_wanted = False, sent = []\<rparr>"

definition ex_ctx :: "AVSampleFormat \<Rightarrow> fpval list list \<Rightarrow> fpval list list \<Rightarrow> AVFilterContext" where
  "ex_ctx fmt ref test =
     \<lparr>priv = ex_priv, input0 = ex_in fmt ref, input1 = ex_in fmt test,
      output0 = ex_out (int (length ref)), is_disabled = False, nb_threads = 1\<rparr>"

text \<open>The scenario of the specification: one channel, four double-precision samples,
  reference 1, 2, 3, 4 and test 1, 2, 3, 5.\<close>

definition ex_block :: "int \<Rightarrow> fpval list list \<Rightarrow> AVFrame" where
  "ex_block n planes =
     \<lparr>nb_samples = n, nb_channels = int (length planes), extended_data = planes, pts = 0\<rparr>"

definition ex_ref :: "fpval list list" where
  "ex_ref = [[fp_of_nat 1, fp_of_nat 2, fp_of_nat 3, fp_of_nat 4]]"

definition ex_test :: "fpval list list" where
  "ex_test = [[fp_of_nat 1, fp_of_nat 2, fp_of_nat 3, fp_of_nat 5]]"

definition ex_kernel :: "sdr_fn \<Rightarrow> int \<Rightarrow> fpval list list \<Rightarrow> fpval list list \<Rightarrow> AudioSDRContext" where
  "ex_kernel f n ref test =
     \<lparr>channels = int (length ref),
      sum_u = Some (replicate (length ref) fp_zero),
      sum_uv = Some (replicate (length ref) fp_zero),
      cache_0 = Some (ex_block n ref), cache_1 = Some (ex_block n test),
      filter_fn = Some f\<rparr>"

text \<open>The context after a successful \<open>config_output\<close>.\<close>

definition ex_configured ::
  "AVSampleFormat \<Rightarrow> fpval list list \<Rightarrow> fpval list list \<Rightarrow> AVFilterContext" where
  "ex_configured fmt ref test = snd (config_output True True (ex_ctx fmt ref test))"

text \<open>Two channels of two samples; an input that reports the error \<open>AVERROR(EIO)\<close>;
  a disabled filter; a reference input that has ended (\<open>AVERROR_EOF\<close> at time 4).\<close>

definition ex_ref2 :: "fpval list list" where
  "ex_ref2 = [[fp_of_nat 1, fp_of_nat 2], [fp_of_nat 3, fp_of_nat 4]]"

definition ex_test2 :: "fpval list list" where
  "ex_test2 = [[fp_of_nat 1, fp_of_nat 1], [fp_of_nat 3, fp_of_nat 5]]"



definition ex_ended :: AVFilterContext where
  "ex_ended =
     (ex_configured AV_SAMPLE_FMT_DBLP [[]] ex_test)
       \<lparr>input0 := (ex_in AV_SAMPLE_FMT_DBLP [[]])\<lparr>in_status := Some (- 541478725, 4)\<rparr>\<rparr>"

text \<open>A single-precision channel with the one sample \<open>1 + 2^-23\<close> against a silent test
  channel; a context whose totals are \<open>e\<close> and \<open>d\<close>.\<close>

definition ex_ref_f :: "fpval list list" where
  "ex_ref_f = [[Finite False 8388609 (- 23)]]"

definition ex_test_f :: "fpval list list" where
  "ex_test_f = [[Finite False 0 0]]"

definition ex_finished :: "fpval \<Rightarrow> fpval \<Rightarrow> AVFilterContext" where
  "ex_finished e d =
     (ex_ctx AV_SAMPLE_FMT_DBLP [[]] [[]])
       \<lparr>priv := ex_priv\<lparr>channels := 1, sum_u := Some [e], sum_uv := Some [d],
                         filter_fn := Some Sdr_dblp\<rparr>\<rparr>"

text \<open>A single-precision channel with the one sample \<open>3 + 2^-22\<close> against a test
  channel with the sample 1.\<close>

definition ex_ref_g :: "fpval list list" where
  "ex_ref_g = [[Finite False 12582913 (- 22)]]"

definition ex_test_g :: "fpval list list" where
  "ex_test_g = [[Finite False 8388608 (- 23)]]"

text \<open>46341 double-precision channels of one sample each, reference 1 and test 0, with
  zeroed totals; and the two-channel context with two threads.\<close>

definition ex_wide :: AudioSDRContext where
  "ex_wide =
     ex_kernel Sdr_dblp 1 (replicate 46341 [fp_of_nat 1]) (replicate 46341 [fp_zero])"

definition ex_threads :: AVFilterContext where
  "ex_threads = (ex_configured AV_SAMPLE_FMT_DBLP ex_ref2 ex_test2)\<lparr>nb_threads := 2\<rparr>"


section \<open>Properties\<close>

subsection \<open>The kernel\<close>

lemma nth_opt_Some: "0 \<le> i \<Longrightarrow> i < int (length xs) \<Longrightarrow> nth_opt xs i = Some (xs ! nat i)"
  by (simp add: nth_opt_def)

lemma drop_take_Cons:
  "k < n \<Longrightarrow> k < length xs \<Longrightarrow> drop k (take n xs) = xs ! k # drop (Suc k) (take n xs)"
  using Cons_nth_drop_Suc [of k "take n xs"] by simp

lemma sample_loop_upto:
  assumes "0 \<le> k" "nb \<le> int (length us)" "nb \<le> int (length vs)"
  shows "sample_loop T us vs [k..nb - 1] (su, suv) =
     Some (foldl (\<lambda>acc u. fadd CDouble acc (promote T (fmul T u u))) su
             (drop (nat k) (take (nat nb) us)),
           foldl (\<lambda>acc (u, v). fadd CDouble acc (promote T (fmul T (fsub T u v) (fsub T u v)))) suv
             (drop (nat k) (take (nat nb) (zip us vs))))"
  using assms
proof (induction "nat (nb - k)" arbitrary: k su suv)
  case 0
  then have "[k..nb - 1] = []" by simp
  moreover from 0 have "nat nb \<le> nat k" by simp
  ultimately show ?case by simp
next
  case (Suc d)
  then have lt: "k < nb" by simp
  then have up: "[k..nb - 1] = k # [k + 1..nb - 1]" by (simp add: upto_rec1)
  have ku: "nat k < length us" and kv: "nat k < length vs" and kn: "nat k < nat nb"
    using lt Suc.prems by auto
  have sk: "nat (k + 1) = Suc (nat k)" using Suc.prems(1) by simp
  have d1: "drop (nat k) (take (nat nb) us) = us ! nat k # drop (nat (k + 1)) (take (nat nb) us)"
    unfolding sk using kn ku by (rule drop_take_Cons)
  have d2: "drop (nat k) (take (nat nb) (zip us vs)) =
      (us ! nat k, vs ! nat k) # drop (nat (k + 1)) (take (nat nb) (zip us vs))"
    unfolding sk using drop_take_Cons [of "nat k" "nat nb" "zip us vs"] kn ku kv by simp
  have IH: "sample_loop T us vs [k + 1..nb - 1] (su', suv') =
     Some (foldl (\<lambda>acc u. fadd CDouble acc (promote T (fmul T u u))) su'
             (drop (nat (k + 1)) (take (nat nb) us)),
           foldl (\<lambda>acc (u, v). fadd CDouble acc (promote T (fmul T (fsub T u v) (fsub T u v)))) suv'
             (drop (nat (k + 1)) (take (nat nb) (zip us vs))))" for su' suv'
    using Suc.hyps(1)[of "k + 1"] Suc.hyps(2) Suc.prems by simp
  have a: "nth_opt us k = Some (us ! nat k)" "nth_opt vs k = Some (vs ! nat k)"
    using Suc.prems lt by (simp_all add: nth_opt_Some)
  show ?case
    unfolding up d1 d2 by (simp add: a IH Let_def)
qed

lemma sample_loop_block:
  assumes "length us = nat nb" "length vs = nat nb"
  shows "sample_loop T us vs [0..nb - 1] (fp_zero, fp_zero) =
     Some (block_energy T us, block_distortion T us vs)"
proof (cases "0 \<le> nb")
  case True
  then show ?thesis
    using sample_loop_upto [of 0 nb us vs T fp_zero fp_zero] assms
    by (simp add: block_energy_def block_distortion_def)
next
  case False
  then have "[0..nb - 1] = []" by simp
  then show ?thesis using assms False
    by (simp add: block_energy_def block_distortion_def)
qed

lemma length_acc_energy [simp]: "length (acc_energy T u a b au) = length au"
  by (simp add: acc_energy_def)

lemma length_acc_distortion [simp]: "length (acc_distortion T u v a b auv) = length auv"
  by (simp add: acc_distortion_def)

lemma acc_energy_empty: "b \<le> a \<Longrightarrow> acc_energy T u a b au = au"
  by (auto simp: acc_energy_def intro!: nth_equalityI)

lemma acc_distortion_empty: "b \<le> a \<Longrightarrow> acc_distortion T u v a b auv = auv"
  by (auto simp: acc_distortion_def intro!: nth_equalityI)

lemma acc_energy_step:
  assumes "0 \<le> a" "a < b" "nat a < length au"
  shows "acc_energy T u (a + 1) b
           (au[nat a := fadd CDouble (au ! nat a) (block_energy T (extended_data u ! nat a))])
         = acc_energy T u a b au"
  using assms by (auto simp: acc_energy_def nth_list_update intro!: nth_equalityI)

lemma acc_distortion_step:
  assumes "0 \<le> a" "a < b" "nat a < length auv"
  shows "acc_distortion T u v (a + 1) b
           (auv[nat a := fadd CDouble (auv ! nat a)
                 (block_distortion T (extended_data u ! nat a) (extended_data v ! nat a))])
         = acc_distortion T u v a b auv"
  using assms by (auto simp: acc_distortion_def nth_list_update intro!: nth_equalityI)

lemma acc_energy_join:
  assumes "a \<le> b" "b \<le> c"
  shows "acc_energy T u b c (acc_energy T u a b au) = acc_energy T u a c au"
  using assms by (auto simp: acc_energy_def intro!: nth_equalityI)

lemma acc_distortion_join:
  assumes "a \<le> b" "b \<le> c"
  shows "acc_distortion T u v b c (acc_distortion T u v a b auv) = acc_distortion T u v a c auv"
  using assms by (auto simp: acc_distortion_def intro!: nth_equalityI)

lemma accumulated_empty: "b \<le> a \<Longrightarrow> allocated c s \<Longrightarrow> accumulated T u v a b s = s"
  by (auto simp: accumulated_def allocated_def acc_energy_empty acc_distortion_empty
      split: option.splits)

lemma accumulated_join:
  "a \<le> b \<Longrightarrow> b \<le> c \<Longrightarrow>
   accumulated T u v b c (accumulated T u v a b s) = accumulated T u v a c s"
  by (cases "sum_u s"; cases "sum_uv s")
    (simp_all add: accumulated_def acc_energy_join acc_distortion_join)

lemma allocated_accumulated [simp]:
  "allocated c (accumulated T u v a b s) = allocated c s"
  by (cases "sum_u s"; cases "sum_uv s") (simp_all add: accumulated_def allocated_def)

lemma accumulated_caches [simp]:
  "cache_0 (accumulated T u v a b s) = cache_0 s"
  "cache_1 (accumulated T u v a b s) = cache_1 s"
  "filter_fn (accumulated T u v a b s) = filter_fn s"
  "channels (accumulated T u v a b s) = channels s"
  by (simp_all add: accumulated_def)

lemma channel_loop_range:
  assumes "wf_frame c nb u" "wf_frame c nb v" "allocated c s" "0 \<le> a" "b \<le> c"
  shows "channel_loop T u (Some v) nb [a..b - 1] s = Some (accumulated T u v a b s)"
  using assms(3,4)
proof (induction "nat (b - a)" arbitrary: a s)
  case 0
  then have "[a..b - 1] = []" "b \<le> a" by simp_all
  then show ?case using 0 by (simp add: accumulated_empty)
next
  case (Suc d)
  then have lt: "a < b" by simp
  then have up: "[a..b - 1] = a # [a + 1..b - 1]" by (simp add: upto_rec1)
  obtain au auv where au: "sum_u s = Some au" "sum_uv s = Some auv"
      "length au = nat c" "length auv = nat c"
    using Suc.prems(1) by (auto simp: allocated_def split: option.splits)
  have ac: "a < c" using lt assms(5) by simp
  have pu: "nth_opt (extended_data u) a = Some (extended_data u ! nat a)"
    and pv: "nth_opt (extended_data v) a = Some (extended_data v ! nat a)"
    using assms(1,2) Suc.prems(2) ac by (simp_all add: wf_frame_def nth_opt_Some)
  have lu: "length (extended_data u ! nat a) = nat nb"
    and lv: "length (extended_data v ! nat a) = nat nb"
    using assms(1,2) Suc.prems(2) ac by (simp_all add: wf_frame_def list_all_length)
  have sl: "sample_loop T (extended_data u ! nat a) (extended_data v ! nat a) [0..nb - 1]
      (fp_zero, fp_zero) =
      Some (block_energy T (extended_data u ! nat a),
            block_distortion T (extended_data u ! nat a) (extended_data v ! nat a))"
    using lu lv by (rule sample_loop_block)
  have xa: "nth_opt auv a = Some (auv ! nat a)" "nth_opt au a = Some (au ! nat a)"
    using au Suc.prems(2) ac by (simp_all add: nth_opt_Some)
  let ?s2 = "s\<lparr>sum_uv := Some (auv[nat a := fadd CDouble (auv ! nat a)
                 (block_distortion T (extended_data u ! nat a) (extended_data v ! nat a))]),
              sum_u := Some (au[nat a := fadd CDouble (au ! nat a)
                 (block_energy T (extended_data u ! nat a))])\<rparr>"
  have al2: "allocated c ?s2" using au by (simp add: allocated_def)
  have IH: "channel_loop T u (Some v) nb [a + 1..b - 1] ?s2 =
      Some (accumulated T u v (a + 1) b ?s2)"
    using Suc.hyps(1)[of "a + 1" ?s2] Suc.hyps(2) al2 Suc.prems(2) by simp
  have eq: "accumulated T u v (a + 1) b ?s2 = accumulated T u v a b s"
    using au lt Suc.prems(2) ac
    by (simp add: accumulated_def acc_energy_step acc_distortion_step)
  show ?case
    unfolding up by (simp add: pu pv sl au xa Let_def IH eq)
qed

text \<open>For double-precision samples the sums of the kernel are those of the
  specification.\<close>

lemma spec_sums_double:
  "spec_energy CDouble us = block_energy CDouble us"
  "spec_distortion CDouble us vs = block_distortion CDouble us vs"
  by (simp_all add: spec_energy_def spec_distortion_def block_energy_def block_distortion_def)



lemma call_filter_eq: "call_filter f = SDR_FILTER (sample_type f)"
  by (cases f) (simp_all add: sdr_fltp_def sdr_dblp_def)

lemma c_div_nonneg: "0 \<le> a \<Longrightarrow> 0 < b \<Longrightarrow> c_div a b = Some (a div b)"
  by (cases "a = 0") (simp_all add: c_div_def INT_MIN_def)

lemma c_int_id: "INT_MIN \<le> x \<Longrightarrow> x \<le> INT_MAX \<Longrightarrow> c_int x = x"
  by (simp add: c_int_def INT_MIN_def INT_MAX_def)

text \<open>The products of job \<open>j\<close> do not overflow when \<open>c * (j + 1)\<close> is in the range of
  \<open>int\<close>.\<close>

lemma job_products:
  assumes "0 \<le> c" "0 \<le> j" "c * (j + 1) \<le> INT_MAX"
  shows "c_mul c j = c * j" "c_mul c (c_add j 1) = c * (j + 1)"
proof -
  have "c * j \<le> c * (j + 1)" using assms(1) by (simp add: mult_left_mono)
  moreover have "0 \<le> c * j" using assms(1,2) by simp
  ultimately have "INT_MIN \<le> c * j" "c * j \<le> INT_MAX"
    using assms(3) by (simp_all add: INT_MIN_def)
  then show "c_mul c j = c * j" by (simp add: c_mul_def c_int_id)
  show "c_mul c (c_add j 1) = c * (j + 1)"
  proof (cases "c = 0")
    case True
    then show ?thesis by (simp add: c_mul_def c_int_def)
  next
    case False
    then have "1 \<le> c" using assms(1) by simp
    then have "1 * (j + 1) \<le> c * (j + 1)" using assms(2) by (intro mult_right_mono) simp_all
    then have "j + 1 \<le> c * (j + 1)" by (simp only: mult_1)
    then have "j + 1 \<le> INT_MAX" using assms(3) by (rule order_trans)
    moreover have "INT_MIN \<le> j + 1" using assms(2) by (simp add: INT_MIN_def)
    ultimately have "INT_MIN \<le> j + 1" "j + 1 \<le> INT_MAX" by simp_all
    then have "c_add j 1 = j + 1" by (simp add: c_add_def c_int_id)
    moreover have "0 \<le> c * (j + 1)" using assms(1,2) by simp
    then have "INT_MIN \<le> c * (j + 1)" by (simp add: INT_MIN_def)
    ultimately show ?thesis using assms(3) by (simp add: c_mul_def c_int_id)
  qed
qed

lemma shard_mono:
  fixes c :: int
  assumes "0 \<le> c" "0 < n" "i \<le> j"
  shows "c * i div n \<le> c * j div n"
  using assms by (simp add: zdiv_mono1 mult_left_mono)

lemma shard_last:
  fixes c :: int
  assumes "0 < n"
  shows "c * n div n = c"
  using assms by simp

lemma SDR_FILTER_job:
  assumes "cache_0 s = Some u" "cache_1 s = Some v" "wf_frame c nb u" "wf_frame c nb v"
    "allocated c s" "0 \<le> c" "0 \<le> j" "j < n" "c * (j + 1) \<le> INT_MAX"
  shows "SDR_FILTER T s j n = Some (accumulated T u v (c * j div n) (c * (j + 1) div n) s)"
proof -
  have n: "0 < n" using assms(7,8) by simp
  have cu: "nb_channels u = c" "nb_samples u = nb" using assms(3) by (simp_all add: wf_frame_def)
  have s: "c_div (c_mul c j) n = Some (c * j div n)"
    "c_div (c_mul c (c_add j 1)) n = Some (c * (j + 1) div n)"
    using assms(6,7) n by (simp_all add: job_products [OF assms(6,7,9)] c_div_nonneg)
  have lo: "0 \<le> c * j div n" using assms(6,7) n by (simp add: pos_imp_zdiv_nonneg_iff)
  have "c * (j + 1) div n \<le> c * n div n"
    using assms(6,8) n by (intro shard_mono) simp_all
  then have hi: "c * (j + 1) div n \<le> c" using n by simp
  show ?thesis
    using channel_loop_range [OF assms(3,4,5) lo hi, of T]
    by (simp add: SDR_FILTER_def job_start_def job_end_def assms(1,2) cu s Let_def)
qed

text \<open>The jobs \<open>k, \<dots>, m - 1\<close> of \<open>n\<close>, as long as their products are in the range
  of \<open>int\<close>.\<close>

lemma run_jobs_range:
  assumes "cache_0 s = Some u" "cache_1 s = Some v" "wf_frame c nb u" "wf_frame c nb v"
    "allocated c s" "0 \<le> c" "0 \<le> k" "k \<le> m" "m \<le> n" "0 < n" "c * m \<le> INT_MAX"
  shows "run_jobs (SDR_FILTER T) n [k..m - 1] s =
     Some (accumulated T u v (c * k div n) (c * m div n) s)"
  using assms(1,2,5,7,8)
proof (induction "nat (m - k)" arbitrary: k s)
  case 0
  then have "k = m" by simp
  then show ?case using 0 by (simp add: accumulated_empty)
next
  case (Suc d)
  then have lt: "k < m" by simp
  then have up: "[k..m - 1] = k # [k + 1..m - 1]" by (simp add: upto_rec1)
  let ?s1 = "accumulated T u v (c * k div n) (c * (k + 1) div n) s"
  have "c * (k + 1) \<le> c * m" using lt assms(6) by (intro mult_left_mono) simp_all
  then have b: "c * (k + 1) \<le> INT_MAX" using assms(11) by simp
  have kn: "k < n" using lt assms(9) by simp
  have job: "SDR_FILTER T s k n = Some ?s1"
    using Suc.prems(1,2) assms(3,4) Suc.prems(3) assms(6) Suc.prems(4) kn b
    by (rule SDR_FILTER_job)
  have IH: "run_jobs (SDR_FILTER T) n [k + 1..m - 1] ?s1 =
      Some (accumulated T u v (c * (k + 1) div n) (c * m div n) ?s1)"
    using Suc.hyps(1)[of "k + 1" ?s1] Suc.hyps(2) Suc.prems lt by simp
  have m1: "c * k div n \<le> c * (k + 1) div n"
    using assms(6,10) by (intro shard_mono) simp_all
  have m2: "c * (k + 1) div n \<le> c * m div n"
    using assms(6,10) lt by (intro shard_mono) simp_all
  show ?case
    unfolding up by (simp add: job IH accumulated_join [OF m1 m2])
qed

lemma ff_filter_execute_accumulated:
  assumes "cache_0 s = Some u" "cache_1 s = Some v" "wf_frame c nb u" "wf_frame c nb v"
    "allocated c s" "0 \<le> c" "0 < n" "c * n \<le> INT_MAX"
  shows "ff_filter_execute (Some f) n s = Some (accumulated (sample_type f) u v 0 c s)"
  using run_jobs_range [OF assms(1-6) _ _ _ assms(7,8), of 0 "sample_type f"] assms(7)
  by (simp add: ff_filter_execute_def call_filter_eq)

subsection \<open>Signs\<close>

lemma aligned_zero_iff [simp]: "aligned e s m e' = 0 \<longleftrightarrow> m = 0"
  by (simp add: aligned_def)

lemma aligned_pos_iff [simp]: "0 < aligned e s m e' \<longleftrightarrow> \<not> s \<and> 0 < m"
  by (cases s) (simp_all add: aligned_def zero_less_mult_iff mult_less_0_iff)

lemma aligned_neg_iff [simp]: "aligned e s m e' < 0 \<longleftrightarrow> s \<and> 0 < m"
  by (cases s) (simp_all add: aligned_def zero_less_mult_iff mult_less_0_iff not_less)

lemma aligned_of_zero [simp]: "aligned e s 0 e' = 0"
  by (simp add: aligned_def)

lemma fp_sign_round [simp]: "fp_sign (fp_round t s m e) = s"
  by (simp add: fp_round_def Let_def)

lemma fp_sign_cast [simp]: "fp_sign (fp_cast t x) = fp_sign x"
  by (cases x) simp_all

lemma fp_sign_promote [simp]: "fp_sign (promote T x) = fp_sign x"
  by (cases T) simp_all

lemma fp_sign_square [simp]: "\<not> fp_sign (fmul t x x)"
  by (cases x) simp_all

lemma aligned_nonneg: "0 \<le> aligned e False m e'"
  by (simp add: aligned_def)

lemma fp_sign_fadd: "\<not> fp_sign x \<Longrightarrow> \<not> fp_sign y \<Longrightarrow> \<not> fp_sign (fadd t x y)"
proof (cases x; cases y)
  fix s1 m1 e1 s2 m2 e2
  assume "x = Finite s1 m1 e1" "y = Finite s2 m2 e2" "\<not> fp_sign x" "\<not> fp_sign y"
  then show "\<not> fp_sign (fadd t x y)"
    using aligned_nonneg [of "min e1 e2" m1 e1] aligned_nonneg [of "min e1 e2" m2 e2]
    by (simp add: Let_def)
qed simp_all

lemma fp_sign_block_energy [simp]: "\<not> fp_sign (block_energy T us)"
proof -
  have "\<not> fp_sign (foldl (\<lambda>acc u. fadd CDouble acc (promote T (fmul T u u))) a us)"
    if "\<not> fp_sign a" for a
    using that by (induction us arbitrary: a) (simp_all add: fp_sign_fadd)
  then show ?thesis by (simp add: block_energy_def fp_zero_def)
qed

lemma fp_sign_block_distortion [simp]: "\<not> fp_sign (block_distortion T us vs)"
proof -
  have "\<not> fp_sign (foldl (\<lambda>acc (u, v). fadd CDouble acc
            (promote T (fmul T (fsub T u v) (fsub T u v)))) a zs)"
    if "\<not> fp_sign a" for a zs
    using that by (induction zs arbitrary: a) (simp_all add: fp_sign_fadd split: prod.splits)
  then show ?thesis by (simp add: block_distortion_def fp_zero_def)
qed

lemma unsigned_totals_accumulated:
  assumes "unsigned_totals s"
  shows "unsigned_totals (accumulated T u v a b s)"
  using assms
  by (cases "sum_u s"; cases "sum_uv s")
    (auto simp: unsigned_totals_def accumulated_def acc_energy_def acc_distortion_def
      list_all_length fp_sign_fadd)


subsection \<open>Rounding\<close>




lemma rne_zero [simp]: "rne 0 k = 0"
  by (simp add: rne_def)






lemma fp_round_not_NaN [simp]: "fp_round t s m e \<noteq> NaN"
  by (simp add: fp_round_def Let_def)








lemma fp_eq_same_sign:
  "fp_eq (Finite s m1 e1) (Finite s m2 e2) \<longleftrightarrow>
     m1 * 2 ^ nat (e1 - min e1 e2) = m2 * 2 ^ nat (e2 - min e1 e2)"
proof -
  have "(int m1 * 2 ^ nat (e1 - min e1 e2) = int m2 * 2 ^ nat (e2 - min e1 e2)) =
      (int (m1 * 2 ^ nat (e1 - min e1 e2)) = int (m2 * 2 ^ nat (e2 - min e1 e2)))"
    by simp
  then show ?thesis
    by (cases s) (simp_all add: aligned_def del: of_nat_mult of_nat_power)
qed


















subsection \<open>Evaluating the arithmetic\<close>

lemma bitlen_numeral_simps:
  "bitlen (numeral (Num.Bit0 k)) = bitlen (numeral k) + 1"
  "bitlen (numeral (Num.Bit1 k)) = bitlen (numeral k) + 1"
  "bitlen 1 = 1"
  by (subst compute_bitlen, simp)+

lemmas fp_eval =
  fp_round_def rne_def aligned_def fsub_def fp_le_def fp_of_nat_def fp_zero_def Let_def
  bitlen_numeral_simps

subsection \<open>The channel ranges of the jobs\<close>

lemma job_bounds:
  assumes "0 \<le> c" "0 \<le> j" "j < n" "c * (j + 1) \<le> INT_MAX"
  shows "job_start c j n = Some (c * j div n)" "job_end c j n = Some (c * (j + 1) div n)"
  using assms
  by (simp_all add: job_start_def job_end_def job_products [OF assms(1,2,4)] c_div_nonneg)

lemma job_bound_of_total:
  fixes c :: int
  assumes "0 \<le> c" "j < n" "c * n \<le> INT_MAX"
  shows "c * (j + 1) \<le> INT_MAX"
proof -
  have "c * (j + 1) \<le> c * n" using assms(1,2) by (intro mult_left_mono) simp_all
  then show ?thesis using assms(3) by simp
qed

lemma div_less_of_less_mult:
  fixes w :: int
  assumes "w < c * n" "1 \<le> n"
  shows "w div n < c"
proof (rule ccontr)
  assume "\<not> w div n < c"
  then have "c \<le> w div n" by simp
  then have "n * c \<le> n * (w div n)" using assms(2) by (intro mult_left_mono) simp_all
  moreover have "n * (w div n) + w mod n = w" by simp
  moreover have "0 \<le> w mod n" using assms(2) by simp
  ultimately have "n * c \<le> w" by linarith
  then show False using assms(1) by (simp add: mult.commute)
qed

text \<open>Beyond the range of \<open>int\<close> the last job does not end at the last channel.\<close>

lemma job_end_overflow:
  assumes "0 \<le> c" "1 \<le> n" "n \<le> INT_MAX" "INT_MAX < c * n"
  shows "job_end c (n - 1) n \<noteq> Some c"
proof -
  let ?w = "c_int (c * n)"
  have n1: "c_add (n - 1) 1 = n"
    using assms(2,3) by (simp add: c_add_def c_int_id INT_MIN_def)
  have w: "?w \<le> INT_MAX"
  proof -
    have "(c * n + 2147483648) mod 4294967296 < 4294967296" by simp
    then show ?thesis by (simp add: c_int_def INT_MAX_def)
  qed
  then have lt: "?w < c * n" using assms(4) by simp
  have cpos: "0 < c"
  proof (rule ccontr)
    assume "\<not> 0 < c"
    then have "c = 0" using assms(1) by simp
    then show False using assms(4) by (simp add: INT_MAX_def)
  qed
  have "c_div ?w n \<noteq> Some c"
  proof (cases "0 \<le> ?w")
    case True
    have "?w div n < c" using lt assms(2) by (rule div_less_of_less_mult)
    then show ?thesis using True assms(2) by (simp add: c_div_nonneg)
  next
    case False
    then have "sgn ?w = - 1" by simp
    moreover have "0 \<le> \<bar>?w\<bar> div n" using assms(2) by (simp add: pos_imp_zdiv_nonneg_iff)
    ultimately show ?thesis using assms(2) cpos by (simp add: c_div_def)
  qed
  then show ?thesis by (simp add: job_end_def n1 c_mul_def)
qed

lemma shard_nonempty:
  fixes c :: int
  assumes "1 \<le> n" "n \<le> c" "0 \<le> j"
  shows "c * j div n < c * (j + 1) div n"
proof -
  have "c * j div n + 1 = (c * j + n) div n" using assms(1) by simp
  also have "\<dots> \<le> (c * j + c) div n" using assms by (intro zdiv_mono1) simp_all
  finally show ?thesis by (simp add: algebra_simps)
qed

lemma shard_upper:
  fixes c :: int
  assumes "0 \<le> c" "0 < n" "j \<le> n"
  shows "c * j div n \<le> c"
proof -
  have "c * j div n \<le> c * n div n" using assms by (intro shard_mono) simp_all
  then show ?thesis using assms(2) by simp
qed

lemma shard_cover:
  fixes c :: int
  assumes "0 \<le> c" "1 \<le> n" "0 \<le> ch" "ch < c"
  shows "\<exists>j. 0 \<le> j \<and> j < n \<and> c * j div n \<le> ch \<and> ch < c * (j + 1) div n"
proof -
  define P where "P k \<longleftrightarrow> ch < c * (int k + 1) div n" for k :: nat
  have "P (nat (n - 1))" using assms by (simp add: P_def)
  then obtain k where k: "P k" "\<And>i. i < k \<Longrightarrow> \<not> P i"
    using exists_least_iff [of P] by auto
  have kn: "int k < n"
  proof (rule ccontr)
    assume "\<not> int k < n"
    then have "nat (n - 1) < k" using assms(2) by simp
    then show False using k(2) \<open>P (nat (n - 1))\<close> by blast
  qed
  have "c * int k div n \<le> ch"
  proof (cases k)
    case 0
    then show ?thesis using assms by simp
  next
    case (Suc i)
    then have "\<not> P i" using k(2) by simp
    then show ?thesis using Suc by (simp add: P_def add.commute)
  qed
  then show ?thesis using k(1) kn by (intro exI [of _ "int k"]) (simp add: P_def)
qed

lemma shard_disjoint:
  fixes c :: int
  assumes "0 \<le> c" "1 \<le> n"
    "c * i div n \<le> ch" "ch < c * (i + 1) div n"
    "c * j div n \<le> ch" "ch < c * (j + 1) div n"
  shows "i = j"
proof (rule ccontr)
  assume ne: "i \<noteq> j"
  have *: "False" if "a + 1 \<le> b" "ch < c * (a + 1) div n" "c * b div n \<le> ch" for a b
  proof -
    have "c * (a + 1) div n \<le> c * b div n" using assms(1,2) that(1) by (intro shard_mono) simp_all
    then show False using that by simp
  qed
  from ne consider "i + 1 \<le> j" | "j + 1 \<le> i" by linarith
  then show False using * assms by cases blast+
qed

lemma SDR_FILTER_pointwise:
  assumes "cache_0 s = Some u" "cache_1 s = Some v"
    and "wf_frame c nb u" "wf_frame c nb v" "0 \<le> c"
    and "sum_u s = Some au" "sum_uv s = Some auv" "length au = nat c" "length auv = nat c"
    and "0 \<le> jobnr" "jobnr < nb_jobs" "c * (jobnr + 1) \<le> INT_MAX"
  shows "\<exists>a b au' auv'.
      job_start c jobnr nb_jobs = Some a \<and> job_end c jobnr nb_jobs = Some b
    \<and> SDR_FILTER T s jobnr nb_jobs = Some (s\<lparr>sum_u := Some au', sum_uv := Some auv'\<rparr>)
    \<and> length au' = nat c \<and> length auv' = nat c
    \<and> (\<forall>ch. 0 \<le> ch \<and> ch < c \<longrightarrow>
          (if a \<le> ch \<and> ch < b
           then au' ! nat ch =
                  fadd CDouble (au ! nat ch) (block_energy T (extended_data u ! nat ch))
              \<and> auv' ! nat ch =
                  fadd CDouble (auv ! nat ch)
                    (block_distortion T (extended_data u ! nat ch) (extended_data v ! nat ch))
           else au' ! nat ch = au ! nat ch \<and> auv' ! nat ch = auv ! nat ch))"
proof -
  have al: "allocated c s" using assms(6-9) by (simp add: allocated_def)
  let ?a = "c * jobnr div nb_jobs" and ?b = "c * (jobnr + 1) div nb_jobs"
  have job: "SDR_FILTER T s jobnr nb_jobs = Some (accumulated T u v ?a ?b s)"
    using assms(1-4) al assms(5,10,11,12) by (rule SDR_FILTER_job)
  have acc: "accumulated T u v ?a ?b s =
      s\<lparr>sum_u := Some (acc_energy T u ?a ?b au), sum_uv := Some (acc_distortion T u v ?a ?b auv)\<rparr>"
    by (simp add: accumulated_def assms(6,7))
  have pw: "(if ?a \<le> ch \<and> ch < ?b
           then acc_energy T u ?a ?b au ! nat ch =
                  fadd CDouble (au ! nat ch) (block_energy T (extended_data u ! nat ch))
              \<and> acc_distortion T u v ?a ?b auv ! nat ch =
                  fadd CDouble (auv ! nat ch)
                    (block_distortion T (extended_data u ! nat ch) (extended_data v ! nat ch))
           else acc_energy T u ?a ?b au ! nat ch = au ! nat ch
              \<and> acc_distortion T u v ?a ?b auv ! nat ch = auv ! nat ch)"
    if "0 \<le> ch" "ch < c" for ch
  proof -
    have "nat ch < length au" "nat ch < length auv" using that assms(8,9) by simp_all
    then show ?thesis using that by (simp add: acc_energy_def acc_distortion_def)
  qed
  show ?thesis
    using job_bounds [OF assms(5,10,11,12)] job acc pw
    by (intro exI [of _ ?a] exI [of _ ?b] exI [of _ "acc_energy T u ?a ?b au"]
        exI [of _ "acc_distortion T u v ?a ?b auv"]) (simp add: assms(8,9))
qed

lemma singleton_nth: "length xs = Suc 0 \<Longrightarrow> xs = [xs ! 0]"
  by (cases xs) simp_all

lemma SDR_FILTER_single:
  assumes "cache_0 s = Some u" "cache_1 s = Some v" "wf_frame 1 nb u" "wf_frame 1 nb v"
    and "sum_u s = Some [x]" "sum_uv s = Some [y]"
  shows "SDR_FILTER T s 0 1 =
     Some (s\<lparr>sum_u := Some [fadd CDouble x (block_energy T (hd (extended_data u)))],
             sum_uv := Some [fadd CDouble y
               (block_distortion T (hd (extended_data u)) (hd (extended_data v)))]\<rparr>)"
proof -
  have al: "allocated 1 s" using assms(5,6) by (simp add: allocated_def)
  have hd: "extended_data u ! 0 = hd (extended_data u)" "extended_data v ! 0 = hd (extended_data v)"
    using assms(3,4) by (cases "extended_data u"; cases "extended_data v"; simp add: wf_frame_def)+
  show ?thesis
    using SDR_FILTER_job [OF assms(1-4) al, of 0 1 T]
    by (simp add: accumulated_def acc_energy_def acc_distortion_def assms(5,6) hd INT_MAX_def)
qed

subsection \<open>The order of the jobs\<close>

lemma run_jobs_append:
  "run_jobs func n (xs @ ys) s = Option.bind (run_jobs func n xs s) (run_jobs func n ys)"
  by (induction xs arbitrary: s) (simp_all split: Option.bind_split)

lemma accumulated_as_on:
  "accumulated T u v a b s = accumulated_on T u v (\<lambda>ch. a \<le> int ch \<and> int ch < b) s"
  by (cases "sum_u s"; cases "sum_uv s")
    (simp_all add: accumulated_def accumulated_on_def acc_energy_def acc_distortion_def)

lemma accumulated_on_none:
  "accumulated_on T u v (\<lambda>ch. False) s = s"
  by (cases "sum_u s"; cases "sum_uv s") (simp_all add: accumulated_on_def map_nth)

lemma accumulated_on_join:
  assumes "\<And>ch. \<not> (P ch \<and> Q ch)"
  shows "accumulated_on T u v Q (accumulated_on T u v P s) =
     accumulated_on T u v (\<lambda>ch. P ch \<or> Q ch) s"
  using assms
  by (cases "sum_u s"; cases "sum_uv s")
    (auto simp: accumulated_on_def intro!: nth_equalityI)

lemma accumulated_on_cong:
  assumes "allocated c s" "\<And>ch. ch < nat c \<Longrightarrow> P ch = Q ch"
  shows "accumulated_on T u v P s = accumulated_on T u v Q s"
  using assms
  by (cases "sum_u s"; cases "sum_uv s")
    (auto simp: accumulated_on_def allocated_def intro!: nth_equalityI)

lemma accumulated_on_fields [simp]:
  "cache_0 (accumulated_on T u v P s) = cache_0 s"
  "cache_1 (accumulated_on T u v P s) = cache_1 s"
  "allocated c (accumulated_on T u v P s) = allocated c s"
  by (cases "sum_u s"; cases "sum_uv s"; simp add: accumulated_on_def allocated_def)+

text \<open>The jobs of a list without repetitions, run in the order of the list.\<close>

lemma run_jobs_listed:
  assumes "wf_frame c nb u" "wf_frame c nb v" "0 \<le> c" "0 < n"
    and "cache_0 s = Some u" "cache_1 s = Some v" "allocated c s"
    and "distinct js" "\<And>j. j \<in> set js \<Longrightarrow> 0 \<le> j \<and> j < n"
    and "c * n \<le> INT_MAX"
  shows "run_jobs (SDR_FILTER T) n js s =
     Some (accumulated_on T u v
       (\<lambda>ch. \<exists>j\<in>set js. c * j div n \<le> int ch \<and> int ch < c * (j + 1) div n) s)"
  using assms(5-9)
proof (induction js arbitrary: s)
  case Nil
  then show ?case by (simp add: accumulated_on_none)
next
  case (Cons j js)
  let ?R = "\<lambda>i ch. c * i div n \<le> int ch \<and> int ch < c * (i + 1) div n"
  let ?s1 = "accumulated_on T u v (?R j) s"
  have j: "0 \<le> j" "j < n" using Cons.prems(5) by simp_all
  have "c * (j + 1) \<le> c * n" using j(2) assms(3) by (intro mult_left_mono) simp_all
  then have b: "c * (j + 1) \<le> INT_MAX" using assms(10) by simp
  have job: "SDR_FILTER T s j n = Some ?s1"
    using SDR_FILTER_job [OF Cons.prems(1,2) assms(1,2) Cons.prems(3) assms(3) j b, of T]
    by (simp add: accumulated_as_on)
  have IH: "run_jobs (SDR_FILTER T) n js ?s1 =
      Some (accumulated_on T u v (\<lambda>ch. \<exists>i\<in>set js. ?R i ch) ?s1)"
    using Cons.prems by (intro Cons.IH) simp_all
  have disj: "\<not> (?R j ch \<and> (\<exists>i\<in>set js. ?R i ch))" for ch
  proof
    assume a: "?R j ch \<and> (\<exists>i\<in>set js. ?R i ch)"
    then obtain i where i: "i \<in> set js" "?R i ch" by blast
    have "j = i"
      using shard_disjoint [OF assms(3), of n j "int ch" i] assms(4) a i(2) by simp
    then show False using i(1) Cons.prems(4) by simp
  qed
  have "accumulated_on T u v (\<lambda>ch. \<exists>i\<in>set js. ?R i ch) ?s1 =
      accumulated_on T u v (\<lambda>ch. ?R j ch \<or> (\<exists>i\<in>set js. ?R i ch)) s"
    using disj by (rule accumulated_on_join)
  then show ?case by (simp add: job IH)
qed

text \<open>The jobs \<open>0, \<dots>, n - 1\<close> run in any order give the totals of the single job.\<close>

lemma run_jobs_any_order:
  assumes "wf_frame c nb u" "wf_frame c nb v" "0 \<le> c" "0 < n"
    and "cache_0 s = Some u" "cache_1 s = Some v" "allocated c s"
    and "distinct js" "set js = {0..n - 1}" "c * n \<le> INT_MAX"
  shows "run_jobs (SDR_FILTER T) n js s = Some (accumulated T u v 0 c s)"
proof -
  let ?R = "\<lambda>i ch. c * i div n \<le> int ch \<and> int ch < c * (i + 1) div n"
  have in_n: "0 \<le> j \<and> j < n" if "j \<in> set js" for j using that assms(9) by auto
  have run: "run_jobs (SDR_FILTER T) n js s =
      Some (accumulated_on T u v (\<lambda>ch. \<exists>j\<in>set js. ?R j ch) s)"
    using assms(1-8) in_n assms(10) by (rule run_jobs_listed)
  have "(\<exists>j\<in>set js. ?R j ch) = (0 \<le> int ch \<and> int ch < c)" if "ch < nat c" for ch
  proof -
    have "0 \<le> int ch" "int ch < c" "1 \<le> n" using that assms(4) by simp_all
    from shard_cover [OF assms(3) this(3,1,2)]
    obtain j where "0 \<le> j" "j < n" "?R j ch" by blast
    then show ?thesis using that assms(9) by auto
  qed
  then have "accumulated_on T u v (\<lambda>ch. \<exists>j\<in>set js. ?R j ch) s =
      accumulated_on T u v (\<lambda>ch. 0 \<le> int ch \<and> int ch < c) s"
    using assms(7) by (intro accumulated_on_cong) simp_all
  then show ?thesis using run by (simp add: accumulated_as_on)
qed

subsection \<open>Steps of \<open>activate\<close>\<close>

lemma FFMIN_min: "FFMIN a b = min a b"
  by (simp add: FFMIN_def min_def)

lemmas activate_unfold = activate_def activate_with_def

lemma activate_nb_jobs_min:
  "activate_nb_jobs ctx = min (out_channels (output0 ctx)) (nb_threads ctx)"
  by (simp add: activate_nb_jobs_def ff_filter_get_nb_threads_def FFMIN_min)

lemma consume_ok:
  assumes "fault l = None" "a \<le> ff_inlink_queued_samples l"
  shows "ff_inlink_consume_samples l a a = (1, Some (take_block l a), drop_block l a)"
  using assms by (simp add: ff_inlink_consume_samples_def FFMIN_min min_def)

lemma consume_fault:
  assumes "fault l = Some err"
  shows "ff_inlink_consume_samples l a b = (err, None, l)"
  using assms by (simp add: ff_inlink_consume_samples_def)

lemma wf_frame_take_block:
  assumes "wf_link c l" "0 \<le> a" "a \<le> ff_inlink_queued_samples l"
  shows "wf_frame c a (take_block l a)"
proof -
  have "length (take (nat a) p) = nat a" if "p \<in> set (fifo l)" for p
  proof -
    have "int (length p) = ff_inlink_queued_samples l"
      using assms(1) that by (simp add: wf_link_def list_all_iff)
    then show ?thesis using assms(2,3) by simp
  qed
  then show ?thesis
    using assms by (simp add: wf_frame_def wf_link_def take_block_def list_all_iff)
qed


lemma consume_loop_ok:
  assumes "fault (input0 ctx) = None" "fault (input1 ctx) = None"
    "a \<le> ff_inlink_queued_samples (input0 ctx)" "a \<le> ff_inlink_queued_samples (input1 ctx)"
  shows "consume_loop [0, 1] a ctx =
     Inr (ctx\<lparr>priv := (priv ctx)\<lparr>cache_0 := Some (take_block (input0 ctx) a),
                                 cache_1 := Some (take_block (input1 ctx) a)\<rparr>,
              input0 := drop_block (input0 ctx) a,
              input1 := drop_block (input1 ctx) a\<rparr>)"
  using assms
  by (simp add: consume_ok inputs_def set_input_def set_cache_def)

lemma activate_block:
  assumes "forward_status_back ctx = None" "wf_ctx c ctx"
    and "fault (input0 ctx) = None" "fault (input1 ctx) = None"
    and "filter_fn (priv ctx) = Some f"
    and a: "a = FFMIN (ff_inlink_queued_samples (input0 ctx))
                      (ff_inlink_queued_samples (input1 ctx))" "0 < a"
  shows "activate forward_status_back ctx =
     Some (0, ctx\<lparr>priv := (if is_disabled ctx then priv ctx
                           else accumulated (sample_type f) (take_block (input0 ctx) a)
                                  (take_block (input1 ctx) a) 0 c (priv ctx))
                          \<lparr>cache_0 := None, cache_1 := None\<rparr>,
                  input0 := drop_block (input0 ctx) a,
                  input1 := drop_block (input1 ctx) a,
                  output0 := (output0 ctx)\<lparr>sent := sent (output0 ctx) @ [take_block (input0 ctx) a]\<rparr>\<rparr>)"
proof -
  have q: "a \<le> ff_inlink_queued_samples (input0 ctx)" "a \<le> ff_inlink_queued_samples (input1 ctx)"
    using a(1) by (simp_all add: FFMIN_min)
  let ?u = "take_block (input0 ctx) a" and ?v = "take_block (input1 ctx) a"
  let ?s1 = "(priv ctx)\<lparr>cache_0 := Some ?u, cache_1 := Some ?v\<rparr>"
  let ?ctx1 = "ctx\<lparr>priv := ?s1, input0 := drop_block (input0 ctx) a,
                   input1 := drop_block (input1 ctx) a\<rparr>"
  have cl: "consume_loop [0, 1] a ctx = Inr ?ctx1"
    using assms(3,4) q by (rule consume_loop_ok)
  have c: "1 \<le> c" "wf_link c (input0 ctx)" "wf_link c (input1 ctx)"
    "out_channels (output0 ctx) = c" "allocated c (priv ctx)" "1 \<le> nb_threads ctx"
    "c * min c (nb_threads ctx) \<le> INT_MAX"
    using assms(2) by (simp_all add: wf_ctx_def)
  have wu: "wf_frame c a ?u" and wv: "wf_frame c a ?v"
    using c(2,3) a(2) q by (simp_all add: wf_frame_take_block)
  have al: "allocated c ?s1" using c(5) by (simp add: allocated_def)
  have n: "0 < activate_nb_jobs ?ctx1"
    using c(1,4,6) by (simp add: activate_nb_jobs_def ff_filter_get_nb_threads_def FFMIN_min)
  have nb: "c * activate_nb_jobs ?ctx1 \<le> INT_MAX"
    using c(4,7) by (simp add: activate_nb_jobs_def ff_filter_get_nb_threads_def FFMIN_min)
  have ex: "ff_filter_execute (Some f) (activate_nb_jobs ?ctx1) ?s1 =
      Some (accumulated (sample_type f) ?u ?v 0 c ?s1)"
    using _ _ wu wv al _ n nb by (rule ff_filter_execute_accumulated) (use c(1) in simp_all)
  have acc: "accumulated (sample_type f) ?u ?v 0 c ?s1 =
      (accumulated (sample_type f) ?u ?v 0 c (priv ctx))\<lparr>cache_0 := Some ?u, cache_1 := Some ?v\<rparr>"
    by (simp add: accumulated_def)
  show ?thesis
    using assms(1) a(2)
    by (simp add: activate_unfold a(1) [symmetric] cl ex acc assms(5) inputs_def
        av_frame_free_def set_cache_def ff_filter_frame_def Let_def del: One_nat_def consume_loop.simps)
qed

text \<open>A step that withdraws a block pair, for every execution facility: the facility
  is called once, with the selected kernel, the job count
  \<open>min (channels of the output) (threads)\<close> and the context holding the two blocks.\<close>

lemma activate_with_block:
  assumes "forward_status_back ctx = None" "\<not> is_disabled ctx"
    and "fault (input0 ctx) = None" "fault (input1 ctx) = None"
    and a: "a = FFMIN (ff_inlink_queued_samples (input0 ctx))
                      (ff_inlink_queued_samples (input1 ctx))" "0 < a"
  shows "activate_with execute forward_status_back ctx =
     (case execute (filter_fn (priv ctx)) (min (out_channels (output0 ctx)) (nb_threads ctx))
             ((priv ctx)\<lparr>cache_0 := Some (take_block (input0 ctx) a),
                         cache_1 := Some (take_block (input1 ctx) a)\<rparr>) of
        None \<Rightarrow> None
      | Some s1 \<Rightarrow>
          (case cache_0 s1 of
             None \<Rightarrow> None
           | Some out \<Rightarrow>
               Some (0, ctx\<lparr>priv := s1\<lparr>cache_1 := None, cache_0 := None\<rparr>,
                            input0 := drop_block (input0 ctx) a,
                            input1 := drop_block (input1 ctx) a,
                            output0 := (output0 ctx)\<lparr>sent := sent (output0 ctx) @ [out]\<rparr>\<rparr>)))"
proof -
  have q: "a \<le> ff_inlink_queued_samples (input0 ctx)" "a \<le> ff_inlink_queued_samples (input1 ctx)"
    using a(1) by (simp_all add: FFMIN_min)
  have cl: "consume_loop [0, 1] a ctx =
     Inr (ctx\<lparr>priv := (priv ctx)\<lparr>cache_0 := Some (take_block (input0 ctx) a),
                                 cache_1 := Some (take_block (input1 ctx) a)\<rparr>,
              input0 := drop_block (input0 ctx) a,
              input1 := drop_block (input1 ctx) a\<rparr>)"
    using assms(3,4) q by (rule consume_loop_ok)
  show ?thesis
    using assms(1,2) a(2)
    by (simp add: activate_with_def a(1) [symmetric] cl inputs_def activate_nb_jobs_min
        av_frame_free_def set_cache_def ff_filter_frame_def Let_def
        del: One_nat_def consume_loop.simps split: option.splits)
qed

lemma consume_loop_fault0:
  assumes "fault (input0 ctx) = Some err" "err < 0"
  shows "consume_loop [0, 1] a ctx =
     Inl (err, ctx\<lparr>priv := (priv ctx)\<lparr>cache_0 := None, cache_1 := None\<rparr>\<rparr>)"
  using assms
  by (simp add: consume_fault inputs_def set_input_def set_cache_def av_frame_free_def)

lemma consume_loop_fault1:
  assumes "fault (input0 ctx) = None" "a \<le> ff_inlink_queued_samples (input0 ctx)"
    "fault (input1 ctx) = Some err" "err < 0"
  shows "consume_loop [0, 1] a ctx =
     Inl (err, ctx\<lparr>priv := (priv ctx)\<lparr>cache_0 := None, cache_1 := None\<rparr>,
                   input0 := drop_block (input0 ctx) a\<rparr>)"
  using assms
  by (simp add: consume_fault consume_ok inputs_def set_input_def set_cache_def av_frame_free_def)

lemma activate_fault0:
  assumes "forward_status_back ctx = None"
    and "fault (input0 ctx) = Some err" "err < 0"
    and "0 < FFMIN (ff_inlink_queued_samples (input0 ctx)) (ff_inlink_queued_samples (input1 ctx))"
  shows "activate forward_status_back ctx =
     Some (err, ctx\<lparr>priv := (priv ctx)\<lparr>cache_0 := None, cache_1 := None\<rparr>\<rparr>)"
  using assms(1,4)
  by (simp add: activate_unfold inputs_def consume_loop_fault0 [OF assms(2,3)] Let_def
      del: One_nat_def consume_loop.simps)

lemma activate_fault1:
  assumes "forward_status_back ctx = None"
    and "fault (input0 ctx) = None" "fault (input1 ctx) = Some err" "err < 0"
    and a: "a = FFMIN (ff_inlink_queued_samples (input0 ctx))
                      (ff_inlink_queued_samples (input1 ctx))" "0 < a"
  shows "activate forward_status_back ctx =
     Some (err, ctx\<lparr>priv := (priv ctx)\<lparr>cache_0 := None, cache_1 := None\<rparr>,
                   input0 := drop_block (input0 ctx) a\<rparr>)"
proof -
  have q: "a \<le> ff_inlink_queued_samples (input0 ctx)" using a(1) by (simp add: FFMIN_min)
  show ?thesis
    using assms(1) a(2)
    by (simp add: activate_unfold inputs_def a(1) [symmetric]
        consume_loop_fault1 [OF assms(2) q assms(3,4)] Let_def
        del: One_nat_def consume_loop.simps)
qed

lemma activate_idle:
  assumes "forward_status_back ctx = None"
    and "FFMIN (ff_inlink_queued_samples (input0 ctx)) (ff_inlink_queued_samples (input1 ctx)) \<le> 0"
  shows "activate forward_status_back ctx =
     (case in_status (input0 ctx) of
        Some (st, ts) \<Rightarrow> Some (0, ctx\<lparr>output0 := (output0 ctx)\<lparr>out_status := Some (st, ts)\<rparr>\<rparr>)
      | None \<Rightarrow>
         (case in_status (input1 ctx) of
            Some (st, ts) \<Rightarrow> Some (0, ctx\<lparr>output0 := (output0 ctx)\<lparr>out_status := Some (st, ts)\<rparr>\<rparr>)
          | None \<Rightarrow>
              if out_frame_wanted (output0 ctx)
              then Some (0, ctx\<lparr>input0 := (if ff_inlink_queued_samples (input0 ctx) > 0
                                              then input0 ctx
                                              else (input0 ctx)\<lparr>in_frame_wanted := True\<rparr>),
                                  input1 := (if ff_inlink_queued_samples (input1 ctx) > 0
                                              then input1 ctx
                                              else (input1 ctx)\<lparr>in_frame_wanted := True\<rparr>)\<rparr>)
              else Some (FFERROR_NOT_READY, ctx)))"
  using assms
  by (simp add: activate_unfold inputs_def set_input_def Let_def
      ff_inlink_acknowledge_status_def ff_outlink_set_status_def ff_outlink_frame_wanted_def
      ff_inlink_request_frame_def split: option.splits)

lemma unsigned_totals_activate:
  assumes "forward_status_back ctx = None" "wf_ctx c ctx" "unsigned_totals (priv ctx)"
    and "activate forward_status_back ctx = Some (ret, ctx')"
  shows "unsigned_totals (priv ctx')"
proof -
  let ?a = "FFMIN (ff_inlink_queued_samples (input0 ctx)) (ff_inlink_queued_samples (input1 ctx))"
  have w: "wf_link c (input0 ctx)" "wf_link c (input1 ctx)"
    using assms(2) by (simp_all add: wf_ctx_def)
  obtain f where f: "filter_fn (priv ctx) = Some f"
    using assms(2) by (auto simp: wf_ctx_def)
  have u: "unsigned_totals (s\<lparr>cache_0 := x, cache_1 := y\<rparr>) = unsigned_totals s" for s x y
    by (simp add: unsigned_totals_def)
  show ?thesis
  proof (cases "0 < ?a")
    case False
    then have "?a \<le> 0" by simp
    from activate_idle [of forward_status_back ctx, OF assms(1) this] assms(3,4)
    show ?thesis by (auto split: option.splits if_splits)
  next
    case True
    consider (ok) "fault (input0 ctx) = None" "fault (input1 ctx) = None"
      | (f0) err where "fault (input0 ctx) = Some err"
      | (f1) err where "fault (input0 ctx) = None" "fault (input1 ctx) = Some err"
      by (cases "fault (input0 ctx)"; cases "fault (input1 ctx)") auto
    then show ?thesis
    proof cases
      case ok
      show ?thesis
        using activate_block [of forward_status_back ctx, OF assms(1,2) ok f refl True] assms(3,4)
        by (auto simp: u unsigned_totals_accumulated)
    next
      case f0
      then have neg: "err < 0" using w(1) by (simp add: wf_link_def)
      show ?thesis
        using activate_fault0 [of forward_status_back ctx, OF assms(1) f0 neg True] assms(3,4)
        by (auto simp: u)
    next
      case f1
      then have neg: "err < 0" using w(2) by (simp add: wf_link_def)
      show ?thesis
        using activate_fault1 [of forward_status_back ctx, OF assms(1) f1 neg refl True] assms(3,4)
        by (auto simp: u)
    qed
  qed
qed

subsection \<open>The report\<close>

lemma log_loop_lines:
  assumes "sum_u s = Some au" "sum_uv s = Some auv" "0 \<le> k"
    "c \<le> int (length au)" "c \<le> int (length auv)"
  shows "log_loop L s [k..c - 1] =
     Some (map (\<lambda>ch. (ch, sdr_db L (au ! nat ch) (auv ! nat ch))) [k..c - 1])"
  using assms(3)
proof (induction "nat (c - k)" arbitrary: k)
  case 0
  then have "[k..c - 1] = []" by simp
  then show ?case by simp
next
  case (Suc d)
  then have lt: "k < c" by simp
  then have up: "[k..c - 1] = k # [k + 1..c - 1]" by (simp add: upto_rec1)
  have IH: "log_loop L s [k + 1..c - 1] =
      Some (map (\<lambda>ch. (ch, sdr_db L (au ! nat ch) (auv ! nat ch))) [k + 1..c - 1])"
    using Suc.hyps(1) [of "k + 1"] Suc.hyps(2) Suc.prems by simp
  have r: "nth_opt au k = Some (au ! nat k)" "nth_opt auv k = Some (auv ! nat k)"
    using lt Suc.prems assms(4,5) by (simp_all add: nth_opt_Some)
  show ?case unfolding up by (simp add: assms(1,2) r IH)
qed

lemma sdr_db_infinite:
  assumes "\<not> fp_sign d" "fp_eq d fp_zero" "fp_lt fp_zero e"
  shows "sdr_db L e d = Infinity False"
proof -
  obtain x where d: "d = Finite False 0 x"
    using assms(1,2) by (cases d) (auto simp: fp_zero_def)
  show ?thesis
  proof (cases e)
    case (Finite s m y)
    then have "\<not> s" "m \<noteq> 0"
      using assms(3) by (auto simp: fp_zero_def)
    then show ?thesis using Finite d by (simp add: sdr_db_def fp_of_nat_def)
  next
    case (Infinity s)
    then show ?thesis using assms(3) d by (simp add: sdr_db_def fp_of_nat_def fp_zero_def)
  next
    case NaN
    then show ?thesis using assms(3) by (simp add: fp_zero_def)
  qed
qed

lemma sdr_db_nan:
  assumes "fp_eq e fp_zero" "fp_eq d fp_zero"
  shows "sdr_db L e d = NaN"
proof -
  obtain s x where e: "e = Finite s 0 x"
    using assms(1) by (cases e) (auto simp: fp_zero_def)
  obtain s' x' where d: "d = Finite s' 0 x'"
    using assms(2) by (cases d) (auto simp: fp_zero_def)
  show ?thesis by (simp add: e d sdr_db_def fp_of_nat_def)
qed

text \<open>
  \<open>config_output\<close> stores the channel count before it allocates.  After a failed
  allocation of \<open>sum_u\<close> the loop of \<open>uninit\<close> therefore reads through a null pointer.
\<close>

lemma uninit_after_failed_allocation:
  assumes "1 \<le> in_channels (input0 ctx)"
  shows "fst (config_output False ok_uv ctx) = AVERROR_ENOMEM"
    and "uninit L (snd (config_output False ok_uv ctx)) = None"
proof -
  let ?c = "in_channels (input0 ctx)"
  have up: "[0..?c - 1] = 0 # [1..?c - 1]" using assms by (simp add: upto_rec1)
  show "fst (config_output False ok_uv ctx) = AVERROR_ENOMEM"
    by (simp add: config_output_def av_calloc_def Let_def)
  show "uninit L (snd (config_output False ok_uv ctx)) = None"
    by (simp add: uninit_def config_output_def av_calloc_def inputs_def Let_def up
        del: upto.simps)
qed

subsection \<open>The totals are doubles and do not decrease\<close>





section \<open>The claims\<close>

lemmas ex_defs =
  ex_configured_def ex_ctx_def ex_in_def ex_out_def ex_priv_def ex_ref_def ex_test_def
  ex_block_def ex_kernel_def


lemma inputs_simps [simp]:
  "inputs ctx 0 = input0 ctx" "inputs ctx 1 = input1 ctx" "inputs ctx (Suc 0) = input1 ctx"
  by (simp_all add: inputs_def)




subsection \<open>The kernel adds the local sums (C1)\<close>

text \<open>
  C1, as the code has it.  For an aligned block pair \<open>u\<close>, \<open>v\<close> (\<open>c\<close> channels of
  \<open>nb\<close> samples) and a job \<open>jobnr\<close> of \<open>nb_jobs\<close> whose products are in the range of
  \<open>int\<close>, one call of the kernel returns, and for every channel \<open>ch\<close> in the job's range
  \<open>a \<le> ch < b\<close> it adds, in a single addition, to \<open>sum_u[ch]\<close> the double-precision sum
  of the products \<open>u[n] * u[n]\<close> and to \<open>sum_uv[ch]\<close> the double-precision sum of the
  products \<open>(u[n] - v[n]) * (u[n] - v[n])\<close>, both formed locally from 0 in sample order.
  The products and the difference are computed in the type \<open>T\<close> of the samples and then
  converted to double; for double-precision samples these are exactly the sums
  \<open>spec_energy\<close> and \<open>spec_distortion\<close> of the specification.  The totals of the channels
  outside the range stay as they are.  In the scenario of the specification (reference
  1, 2, 3, 4 and test 1, 2, 3, 5 in one double-precision channel) the totals become 30
  and 1.
\<close>

theorem SDR_FILTER_adds_local_sums:
  assumes "cache_0 s = Some u" "cache_1 s = Some v"
    and "wf_frame c nb u" "wf_frame c nb v" "0 \<le> c"
    and "sum_u s = Some au" "sum_uv s = Some auv" "length au = nat c" "length auv = nat c"
    and "0 \<le> jobnr" "jobnr < nb_jobs" "c * (jobnr + 1) \<le> INT_MAX"
  shows "\<exists>a b au' auv'.
      job_start c jobnr nb_jobs = Some a \<and> job_end c jobnr nb_jobs = Some b
    \<and> SDR_FILTER T s jobnr nb_jobs = Some (s\<lparr>sum_u := Some au', sum_uv := Some auv'\<rparr>)
    \<and> length au' = nat c \<and> length auv' = nat c
    \<and> (\<forall>ch. 0 \<le> ch \<and> ch < c \<longrightarrow>
          (if a \<le> ch \<and> ch < b
           then au' ! nat ch =
                  fadd CDouble (au ! nat ch)
                    (foldl (\<lambda>acc x. fadd CDouble acc (promote T (fmul T x x))) fp_zero
                       (extended_data u ! nat ch))
              \<and> auv' ! nat ch =
                  fadd CDouble (auv ! nat ch)
                    (foldl (\<lambda>acc (x, y). fadd CDouble acc
                              (promote T (fmul T (fsub T x y) (fsub T x y))))
                       fp_zero (zip (extended_data u ! nat ch) (extended_data v ! nat ch)))
              \<and> (T = CDouble \<longrightarrow>
                    au' ! nat ch =
                      fadd CDouble (au ! nat ch) (spec_energy T (extended_data u ! nat ch))
                  \<and> auv' ! nat ch =
                      fadd CDouble (auv ! nat ch)
                        (spec_distortion T (extended_data u ! nat ch) (extended_data v ! nat ch)))
           else au' ! nat ch = au ! nat ch \<and> auv' ! nat ch = auv ! nat ch))"
proof -
  obtain a b au' auv' where r:
    "job_start c jobnr nb_jobs = Some a" "job_end c jobnr nb_jobs = Some b"
    "SDR_FILTER T s jobnr nb_jobs = Some (s\<lparr>sum_u := Some au', sum_uv := Some auv'\<rparr>)"
    "length au' = nat c" "length auv' = nat c"
    "\<forall>ch. 0 \<le> ch \<and> ch < c \<longrightarrow>
          (if a \<le> ch \<and> ch < b
           then au' ! nat ch =
                  fadd CDouble (au ! nat ch) (block_energy T (extended_data u ! nat ch))
              \<and> auv' ! nat ch =
                  fadd CDouble (auv ! nat ch)
                    (block_distortion T (extended_data u ! nat ch) (extended_data v ! nat ch))
           else au' ! nat ch = au ! nat ch \<and> auv' ! nat ch = auv ! nat ch)"
    using SDR_FILTER_pointwise [OF assms, of T] by blast
  have "\<forall>ch. 0 \<le> ch \<and> ch < c \<longrightarrow>
          (if a \<le> ch \<and> ch < b
           then au' ! nat ch =
                  fadd CDouble (au ! nat ch)
                    (foldl (\<lambda>acc x. fadd CDouble acc (promote T (fmul T x x))) fp_zero
                       (extended_data u ! nat ch))
              \<and> auv' ! nat ch =
                  fadd CDouble (auv ! nat ch)
                    (foldl (\<lambda>acc (x, y). fadd CDouble acc
                              (promote T (fmul T (fsub T x y) (fsub T x y))))
                       fp_zero (zip (extended_data u ! nat ch) (extended_data v ! nat ch)))
              \<and> (T = CDouble \<longrightarrow>
                    au' ! nat ch =
                      fadd CDouble (au ! nat ch) (spec_energy T (extended_data u ! nat ch))
                  \<and> auv' ! nat ch =
                      fadd CDouble (auv ! nat ch)
                        (spec_distortion T (extended_data u ! nat ch) (extended_data v ! nat ch)))
           else au' ! nat ch = au ! nat ch \<and> auv' ! nat ch = auv ! nat ch)"
    using r(6) by (simp add: spec_sums_double block_energy_def block_distortion_def)
  then show ?thesis
    using r(1-5) by (intro exI [of _ a] exI [of _ b] exI [of _ au'] exI [of _ auv']) simp
qed

theorem SDR_FILTER_adds_local_sums_witness:
  "\<exists>e d. SDR_FILTER CDouble (ex_kernel Sdr_dblp 4 ex_ref ex_test) 0 1 =
            Some ((ex_kernel Sdr_dblp 4 ex_ref ex_test)\<lparr>sum_u := Some [e], sum_uv := Some [d]\<rparr>)
        \<and> e = fadd CDouble fp_zero (spec_energy CDouble (hd ex_ref))
        \<and> d = fadd CDouble fp_zero (spec_distortion CDouble (hd ex_ref) (hd ex_test))
        \<and> fp_eq e (fp_of_nat 30) \<and> fp_eq d (fp_of_nat 1)"
proof -
  let ?s = "ex_kernel Sdr_dblp 4 ex_ref ex_test"
  have h: "cache_0 ?s = Some (ex_block 4 ex_ref)" "cache_1 ?s = Some (ex_block 4 ex_test)"
    "wf_frame 1 4 (ex_block 4 ex_ref)" "wf_frame 1 4 (ex_block 4 ex_test)" "(0::int) \<le> 1"
    "sum_u ?s = Some [fp_zero]" "sum_uv ?s = Some [fp_zero]"
    "length [fp_zero] = nat 1" "length [fp_zero] = nat 1" "(0::int) \<le> 0" "(0::int) < 1"
    "(1::int) * (0 + 1) \<le> INT_MAX"
    by (simp_all add: ex_kernel_def ex_block_def ex_ref_def ex_test_def wf_frame_def INT_MAX_def)
  obtain a b au' auv' where r:
    "job_start 1 0 1 = Some a" "job_end 1 0 1 = Some b"
    "SDR_FILTER CDouble ?s 0 1 = Some (?s\<lparr>sum_u := Some au', sum_uv := Some auv'\<rparr>)"
    "length au' = nat 1" "length auv' = nat 1"
    "\<forall>ch. 0 \<le> ch \<and> ch < 1 \<longrightarrow>
       (if a \<le> ch \<and> ch < b
        then au' ! nat ch =
               fadd CDouble ([fp_zero] ! nat ch)
                 (foldl (\<lambda>acc x. fadd CDouble acc (promote CDouble (fmul CDouble x x))) fp_zero
                    (extended_data (ex_block 4 ex_ref) ! nat ch))
           \<and> auv' ! nat ch =
               fadd CDouble ([fp_zero] ! nat ch)
                 (foldl (\<lambda>acc (x, y). fadd CDouble acc
                           (promote CDouble (fmul CDouble (fsub CDouble x y) (fsub CDouble x y))))
                    fp_zero (zip (extended_data (ex_block 4 ex_ref) ! nat ch)
                                 (extended_data (ex_block 4 ex_test) ! nat ch)))
           \<and> (CDouble = CDouble \<longrightarrow>
                 au' ! nat ch =
                   fadd CDouble ([fp_zero] ! nat ch)
                     (spec_energy CDouble (extended_data (ex_block 4 ex_ref) ! nat ch))
               \<and> auv' ! nat ch =
                   fadd CDouble ([fp_zero] ! nat ch)
                     (spec_distortion CDouble (extended_data (ex_block 4 ex_ref) ! nat ch)
                        (extended_data (ex_block 4 ex_test) ! nat ch)))
        else au' ! nat ch = [fp_zero] ! nat ch \<and> auv' ! nat ch = [fp_zero] ! nat ch)"
    using SDR_FILTER_adds_local_sums [OF h, of CDouble] by blast
  have ab: "a = 0" "b = 1"
    using r(1,2)
    by (simp_all add: job_start_def job_end_def c_div_def c_mul_def c_add_def c_int_def INT_MIN_def)
  obtain e where e: "au' = [e]" using r(4) by (cases au') simp_all
  obtain d where d: "auv' = [d]" using r(5) by (cases auv') simp_all
  have hd: "ex_ref ! 0 = hd ex_ref" "ex_test ! 0 = hd ex_test"
    by (simp_all add: ex_ref_def ex_test_def)
  have ev: "e = fadd CDouble fp_zero (spec_energy CDouble (hd ex_ref))"
    and dv: "d = fadd CDouble fp_zero (spec_distortion CDouble (hd ex_ref) (hd ex_test))"
    using r(6) [rule_format, of 0]
    by (simp_all add: ab e d ex_block_def hd spec_energy_def spec_distortion_def)
  have "fp_eq e (fp_of_nat 30)"
    unfolding ev by (simp add: spec_energy_def ex_ref_def fp_eval)
  moreover have "fp_eq d (fp_of_nat 1)"
    unfolding dv by (simp add: spec_distortion_def ex_ref_def ex_test_def fp_eval)
  moreover have "SDR_FILTER CDouble ?s 0 1 = Some (?s\<lparr>sum_u := Some [e], sum_uv := Some [d]\<rparr>)"
    using r(3) unfolding e d .
  ultimately show ?thesis using ev dv by (intro exI [of _ e] exI [of _ d] conjI)
qed

text \<open>
  C1 as stated fails for single-precision samples.  For the reference sample
  \<open>3 + 2^-22\<close> and the test sample 1, both single-precision numbers, the kernel adds
  \<open>9 + 2^-19\<close> to the energy total and \<open>4 + 2^-20\<close> to the distortion total, the
  products rounded to single precision.  The sums of the squares are
  \<open>(3 + 2^-22)\<^sup>2 = 158329699565569 * 2^-44\<close> and
  \<open>(2 + 2^-22)\<^sup>2 = 70368760954881 * 2^-44\<close>, both double-precision numbers.
\<close>

theorem sdr_fltp_adds_rounded_squares:
  "\<exists>e d. sdr_fltp (ex_kernel Sdr_fltp 1 ex_ref_g ex_test_g) 0 1 =
            Some ((ex_kernel Sdr_fltp 1 ex_ref_g ex_test_g)\<lparr>sum_u := Some [e], sum_uv := Some [d]\<rparr>)
     \<and> map (fp_cast CFloat) (hd ex_ref_g) = hd ex_ref_g
     \<and> map (fp_cast CFloat) (hd ex_test_g) = hd ex_test_g
     \<and> fp_eq e (Finite False 4718593 (- 19))
     \<and> fp_eq (fadd CDouble fp_zero (spec_energy CFloat (hd ex_ref_g)))
          (Finite False 158329699565569 (- 44))
     \<and> \<not> fp_eq e (fadd CDouble fp_zero (spec_energy CFloat (hd ex_ref_g)))
     \<and> fp_eq d (Finite False 4194305 (- 20))
     \<and> fp_eq (fadd CDouble fp_zero (spec_distortion CFloat (hd ex_ref_g) (hd ex_test_g)))
          (Finite False 70368760954881 (- 44))
     \<and> \<not> fp_eq d (fadd CDouble fp_zero (spec_distortion CFloat (hd ex_ref_g) (hd ex_test_g)))"
proof -
  let ?s = "ex_kernel Sdr_fltp 1 ex_ref_g ex_test_g"
  let ?e = "fadd CDouble fp_zero (block_energy CFloat (hd ex_ref_g))"
  let ?d = "fadd CDouble fp_zero (block_distortion CFloat (hd ex_ref_g) (hd ex_test_g))"
  have h: "cache_0 ?s = Some (ex_block 1 ex_ref_g)" "cache_1 ?s = Some (ex_block 1 ex_test_g)"
    "wf_frame 1 1 (ex_block 1 ex_ref_g)" "wf_frame 1 1 (ex_block 1 ex_test_g)"
    "sum_u ?s = Some [fp_zero]" "sum_uv ?s = Some [fp_zero]"
    by (simp_all add: ex_kernel_def ex_block_def ex_ref_g_def ex_test_g_def wf_frame_def)
  have run: "sdr_fltp ?s 0 1 = Some (?s\<lparr>sum_u := Some [?e], sum_uv := Some [?d]\<rparr>)"
    using SDR_FILTER_single [OF h, of CFloat] by (simp add: sdr_fltp_def ex_block_def)
  have 0: "map (fp_cast CFloat) (hd ex_ref_g) = hd ex_ref_g"
    "map (fp_cast CFloat) (hd ex_test_g) = hd ex_test_g"
    by (simp_all add: ex_ref_g_def ex_test_g_def fp_eval)
  have 1: "fp_eq ?e (Finite False 4718593 (- 19))"
    by (simp add: block_energy_def ex_ref_g_def fp_eval)
  have 2: "fp_eq (fadd CDouble fp_zero (spec_energy CFloat (hd ex_ref_g)))
          (Finite False 158329699565569 (- 44))"
    by (simp add: spec_energy_def ex_ref_g_def fp_eval)
  have 3: "\<not> fp_eq ?e (fadd CDouble fp_zero (spec_energy CFloat (hd ex_ref_g)))"
    by (simp add: block_energy_def spec_energy_def ex_ref_g_def fp_eval)
  have 4: "fp_eq ?d (Finite False 4194305 (- 20))"
    by (simp add: block_distortion_def ex_ref_g_def ex_test_g_def fp_eval)
  have 5: "fp_eq (fadd CDouble fp_zero (spec_distortion CFloat (hd ex_ref_g) (hd ex_test_g)))
          (Finite False 70368760954881 (- 44))"
    by (simp add: spec_distortion_def ex_ref_g_def ex_test_g_def fp_eval)
  have 6: "\<not> fp_eq ?d (fadd CDouble fp_zero (spec_distortion CFloat (hd ex_ref_g) (hd ex_test_g)))"
    by (simp add: block_distortion_def spec_distortion_def ex_ref_g_def ex_test_g_def fp_eval)
  show ?thesis
    using run 0 1 2 3 4 5 6 by (intro exI [of _ ?e] exI [of _ ?d] conjI)
qed

subsection \<open>Sharding by channel ranges (C4)\<close>

text \<open>
  C4, as the code has it.  For \<open>c \<ge> 1\<close> channels and \<open>n\<close> jobs with \<open>1 \<le> n \<le> c\<close>
  and \<open>c * n \<le> INT_MAX\<close>, so that no product \<open>channels * jobnr\<close> or
  \<open>channels * (jobnr+1)\<close> overflows: every job \<open>j\<close> has a non-empty range \<open>[a, b)\<close>
  inside \<open>[0, c)\<close>, the first range starts at 0, each range ends where the next starts
  and the last ends at \<open>c\<close>; every channel lies in the range of exactly one job.  Hence
  running the kernel as \<open>n\<close> jobs on an aligned block pair returns the same context,
  with the same totals in every channel, as running it as one job.  In a step of an
  enabled filter that withdraws a block pair, \<open>activate\<close> calls the execution facility,
  whatever it is, with the job count \<open>min (channels of the output) (threads)\<close>, and its
  result is built from what the facility returns for that count.
\<close>

theorem sharded_execution:
  assumes "1 \<le> n" "n \<le> c" "c * n \<le> INT_MAX"
    and "cache_0 s = Some u" "cache_1 s = Some v"
    and "wf_frame c nb u" "wf_frame c nb v" "allocated c s"
    and "forward_status_back ctx = None" "\<not> is_disabled ctx"
    and "fault (input0 ctx) = None" "fault (input1 ctx) = None"
    and "available = FFMIN (ff_inlink_queued_samples (inputs ctx 0))
                           (ff_inlink_queued_samples (inputs ctx 1))" "0 < available"
  shows
    "(\<forall>j. 0 \<le> j \<and> j < n \<longrightarrow>
        (\<exists>a b. job_start c j n = Some a \<and> job_end c j n = Some b
             \<and> 0 \<le> a \<and> a < b \<and> b \<le> c
             \<and> (j = 0 \<longrightarrow> a = 0)
             \<and> (j + 1 < n \<longrightarrow> job_start c (j + 1) n = Some b)
             \<and> (j + 1 = n \<longrightarrow> b = c)))
   \<and> (\<forall>ch. 0 \<le> ch \<and> ch < c \<longrightarrow>
        (\<exists>!j. 0 \<le> j \<and> j < n
             \<and> (\<exists>a b. job_start c j n = Some a \<and> job_end c j n = Some b \<and> a \<le> ch \<and> ch < b)))
   \<and> (\<exists>s'. ff_filter_execute (Some f) n s = Some s' \<and> ff_filter_execute (Some f) 1 s = Some s')
   \<and> activate forward_status_back ctx = activate_with ff_filter_execute forward_status_back ctx
   \<and> (\<forall>execute.
        activate_with execute forward_status_back ctx =
          (case execute (filter_fn (priv ctx))
                  (min (out_channels (output0 ctx)) (nb_threads ctx))
                  ((priv ctx)\<lparr>cache_0 := Some (take_block (input0 ctx) available),
                              cache_1 := Some (take_block (input1 ctx) available)\<rparr>) of
             None \<Rightarrow> None
           | Some s1 \<Rightarrow>
               (case cache_0 s1 of
                  None \<Rightarrow> None
                | Some out \<Rightarrow>
                    Some (0, ctx\<lparr>priv := s1\<lparr>cache_1 := None, cache_0 := None\<rparr>,
                                 input0 := drop_block (input0 ctx) available,
                                 input1 := drop_block (input1 ctx) available,
                                 output0 := (output0 ctx)
                                   \<lparr>sent := sent (output0 ctx) @ [out]\<rparr>\<rparr>))))"
proof -
  have c: "0 \<le> c" "0 < n" using assms(1,2) by simp_all
  have bd: "c * (j + 1) \<le> INT_MAX" if "j < n" for j
    using c(1) that assms(3) by (rule job_bound_of_total)
  have 1: "\<exists>a b. job_start c j n = Some a \<and> job_end c j n = Some b
             \<and> 0 \<le> a \<and> a < b \<and> b \<le> c
             \<and> (j = 0 \<longrightarrow> a = 0)
             \<and> (j + 1 < n \<longrightarrow> job_start c (j + 1) n = Some b)
             \<and> (j + 1 = n \<longrightarrow> b = c)" if j: "0 \<le> j" "j < n" for j
  proof -
    have "0 \<le> c * j div n" using c j by (simp add: pos_imp_zdiv_nonneg_iff)
    moreover have "c * j div n < c * (j + 1) div n" using assms(1,2) j(1) by (rule shard_nonempty)
    moreover have "c * (j + 1) div n \<le> c" using c j by (intro shard_upper) simp_all
    moreover have "job_start c (j + 1) n = Some (c * (j + 1) div n)" if "j + 1 < n"
      using c j that bd [OF that] by (simp add: job_bounds)
    moreover have "c * (j + 1) div n = c" if "j + 1 = n" using that c by simp
    ultimately show ?thesis
      using job_bounds [OF c(1) j bd [OF j(2)]]
      by (intro exI [of _ "c * j div n"] exI [of _ "c * (j + 1) div n"]) simp
  qed
  have 2: "\<exists>!j. 0 \<le> j \<and> j < n
             \<and> (\<exists>a b. job_start c j n = Some a \<and> job_end c j n = Some b \<and> a \<le> ch \<and> ch < b)"
    if ch: "0 \<le> ch" "ch < c" for ch
  proof -
    obtain j where j: "0 \<le> j" "j < n" "c * j div n \<le> ch" "ch < c * (j + 1) div n"
      using shard_cover [OF c(1) assms(1) ch] by blast
    show ?thesis
    proof (rule ex1I [of _ j])
      show "0 \<le> j \<and> j < n
          \<and> (\<exists>a b. job_start c j n = Some a \<and> job_end c j n = Some b \<and> a \<le> ch \<and> ch < b)"
        using j job_bounds [OF c(1) j(1,2) bd [OF j(2)]] by simp
    next
      fix i
      assume i: "0 \<le> i \<and> i < n
          \<and> (\<exists>a b. job_start c i n = Some a \<and> job_end c i n = Some b \<and> a \<le> ch \<and> ch < b)"
      then have "c * i div n \<le> ch" "ch < c * (i + 1) div n"
        using job_bounds [OF c(1), of i n] bd [of i] by auto
      then show "i = j" using shard_disjoint [OF c(1) assms(1) _ _ j(3,4)] by blast
    qed
  qed
  have "c * 1 \<le> c * n" using c(1) assms(1) by (intro mult_left_mono) simp_all
  then have c1: "c * 1 \<le> INT_MAX" using assms(3) by (rule order_trans)
  have 3: "ff_filter_execute (Some f) n s = Some (accumulated (sample_type f) u v 0 c s)"
    "ff_filter_execute (Some f) 1 s = Some (accumulated (sample_type f) u v 0 c s)"
    using ff_filter_execute_accumulated [OF assms(4-8) c(1) c(2) assms(3)]
      ff_filter_execute_accumulated [OF assms(4-8) c(1) _ c1]
    by simp_all
  have a: "available = FFMIN (ff_inlink_queued_samples (input0 ctx))
                              (ff_inlink_queued_samples (input1 ctx))"
    using assms(13) by (simp add: inputs_def)
  note 4 = activate_with_block [of forward_status_back ctx, OF assms(9-12) a assms(14)]
  show ?thesis
  proof (intro conjI allI impI)
    show "\<exists>s'. ff_filter_execute (Some f) n s = Some s' \<and> ff_filter_execute (Some f) 1 s = Some s'"
      using 3 by simp
    show "activate forward_status_back ctx = activate_with ff_filter_execute forward_status_back ctx"
      by (simp add: activate_def)
  qed (use 1 2 4 in simp_all)
qed

theorem sharded_execution_witness:
  "job_start 2 0 2 = Some 0 \<and> job_end 2 0 2 = Some 1
   \<and> job_start 2 1 2 = Some 1 \<and> job_end 2 1 2 = Some 2
   \<and> (\<exists>s'. ff_filter_execute (Some Sdr_fltp) 2 (ex_kernel Sdr_fltp 2 ex_ref2 ex_test2) = Some s'
          \<and> ff_filter_execute (Some Sdr_fltp) 1 (ex_kernel Sdr_fltp 2 ex_ref2 ex_test2) = Some s')
   \<and> (\<exists>ctx'. activate_with (\<lambda>f n s. if n = 2 then Some s else None) (\<lambda>ctx. None) ex_threads =
                Some (0, ctx'))"
proof -
  let ?s = "ex_kernel Sdr_fltp 2 ex_ref2 ex_test2"
  have h: "(1::int) \<le> 2" "(2::int) \<le> 2" "(2::int) * 2 \<le> INT_MAX"
    "cache_0 ?s = Some (ex_block 2 ex_ref2)" "cache_1 ?s = Some (ex_block 2 ex_test2)"
    "wf_frame 2 2 (ex_block 2 ex_ref2)" "wf_frame 2 2 (ex_block 2 ex_test2)" "allocated 2 ?s"
    by (simp_all add: ex_kernel_def ex_block_def ex_ref2_def ex_test2_def wf_frame_def
        allocated_def INT_MAX_def)
  have k: "(\<lambda>ctx::AVFilterContext. None::AVFilterContext option) ex_threads = None"
    "\<not> is_disabled ex_threads" "fault (input0 ex_threads) = None"
    "fault (input1 ex_threads) = None"
    "(2::int) = FFMIN (ff_inlink_queued_samples (inputs ex_threads 0))
                      (ff_inlink_queued_samples (inputs ex_threads 1))" "(0::int) < 2"
    by (simp_all add: ex_threads_def ex_defs ex_ref2_def ex_test2_def config_output_def
        inputs_def FFMIN_def ff_inlink_queued_samples_def Let_def)
  have m: "min (out_channels (output0 ex_threads)) (nb_threads ex_threads) = 2"
    by (simp add: ex_threads_def ex_defs ex_ref2_def config_output_def Let_def)
  have j: "job_start 2 0 2 = Some 0" "job_end 2 0 2 = Some 1"
    "job_start 2 1 2 = Some 1" "job_end 2 1 2 = Some 2"
    by (simp_all add: job_start_def job_end_def c_div_def c_mul_def c_add_def c_int_def
        INT_MIN_def)
  note w = sharded_execution [OF h k, of Sdr_fltp]
  have "\<exists>s'. ff_filter_execute (Some Sdr_fltp) 2 ?s = Some s'
          \<and> ff_filter_execute (Some Sdr_fltp) 1 ?s = Some s'"
    using w by blast
  moreover have "\<exists>ctx'. activate_with (\<lambda>f n s. if n = 2 then Some s else None) (\<lambda>ctx. None)
      ex_threads = Some (0, ctx')"
    using w [THEN conjunct2, THEN conjunct2, THEN conjunct2, THEN conjunct2, rule_format,
        of "\<lambda>f n s. if n = 2 then Some s else None"]
    by (simp add: m)
  ultimately show ?thesis using j by simp
qed

lemma ex_wide_facts:
  "cache_0 ex_wide = Some (ex_block 1 (replicate 46341 [fp_of_nat 1]))"
  "cache_1 ex_wide = Some (ex_block 1 (replicate 46341 [fp_zero]))"
  "wf_frame 46341 1 (ex_block 1 (replicate 46341 [fp_of_nat 1]))"
  "wf_frame 46341 1 (ex_block 1 (replicate 46341 [fp_zero]))"
  "allocated 46341 ex_wide"
  "sum_u ex_wide = Some (replicate 46341 fp_zero)"
  by (simp_all add: ex_wide_def ex_kernel_def ex_block_def wf_frame_def allocated_def
      list_all_iff)

lemma last_job_range:
  "job_start 46341 46340 46341 = Some 46340" "job_end 46341 46340 46341 = Some (- 46340)"
  by (simp_all add: job_start_def job_end_def c_mul_def c_add_def c_int_def c_div_def INT_MIN_def)

text \<open>
  C4 as stated fails beyond the range of \<open>int\<close>.  With 46341 channels and 46341 jobs
  the product \<open>channels * (jobnr+1)\<close> of the last job is \<open>46341 * 46341 = 2147488281\<close>,
  above \<open>INT_MAX\<close>; as a 32-bit \<open>int\<close> it is \<open>-2147479015\<close>, so the last job has
  \<open>start = 46340\<close> and \<open>end = -46340\<close> and covers no channel.  Channel 46340 is in no
  job's range: on a block whose reference samples are 1 and whose test samples are 0
  the run with 46341 jobs leaves its energy total at 0, where the run with one job makes
  it 1.
\<close>

theorem last_job_overflows:
  "job_start 46341 46340 46341 = Some 46340
   \<and> job_end 46341 46340 46341 = Some (- 46340)
   \<and> \<not> (\<exists>j a b. 0 \<le> j \<and> j < 46341 \<and> job_start 46341 j 46341 = Some a
                \<and> job_end 46341 j 46341 = Some b \<and> a \<le> 46340 \<and> 46340 < b)
   \<and> (\<exists>s1 sn a1 an.
         ff_filter_execute (Some Sdr_dblp) 1 ex_wide = Some s1 \<and> sum_u s1 = Some a1
       \<and> ff_filter_execute (Some Sdr_dblp) 46341 ex_wide = Some sn \<and> sum_u sn = Some an
       \<and> fp_eq (a1 ! 46340) (fp_of_nat 1) \<and> an ! 46340 = fp_zero
       \<and> \<not> fp_eq (an ! 46340) (a1 ! 46340))"
proof -
  let ?u = "ex_block 1 (replicate 46341 [fp_of_nat 1])"
  let ?v = "ex_block 1 (replicate 46341 [fp_zero])"
  have cover: "\<not> (\<exists>j a b. 0 \<le> j \<and> j < 46341 \<and> job_start 46341 j 46341 = Some a
                \<and> job_end 46341 j 46341 = Some b \<and> a \<le> 46340 \<and> 46340 < b)"
  proof
    assume "\<exists>j a b. 0 \<le> j \<and> j < 46341 \<and> job_start 46341 j 46341 = Some a
                \<and> job_end 46341 j 46341 = Some b \<and> a \<le> 46340 \<and> 46340 < b"
    then obtain j a b where j: "0 \<le> j" "j < 46341" "job_start 46341 j 46341 = Some a"
      "job_end 46341 j 46341 = Some b" "a \<le> 46340" "46340 < b" by blast
    show False
    proof (cases "j = 46340")
      case True
      then show ?thesis using j(4,6) last_job_range(2) by simp
    next
      case False
      then have lt: "j + 1 \<le> 46340" using j(2) by simp
      then have "46341 * (j + 1) \<le> 46341 * 46340" by simp
      then have "46341 * (j + 1) \<le> INT_MAX" by (simp add: INT_MAX_def)
      from job_bounds(2) [OF _ j(1,2) this] have "b = j + 1" using j(4) by simp
      then show ?thesis using lt j(6) by simp
    qed
  qed
  have one: "ff_filter_execute (Some Sdr_dblp) 1 ex_wide =
      Some (accumulated CDouble ?u ?v 0 46341 ex_wide)"
    using ff_filter_execute_accumulated [OF ex_wide_facts(1-5), of 1 Sdr_dblp]
    by (simp add: INT_MAX_def)
  have up: "[0..46341 - 1] = [0..46339] @ [46340::int]"
    using upto_rec2 [of 0 46340] by simp
  have first: "run_jobs (SDR_FILTER CDouble) 46341 [0..46339] ex_wide =
      Some (accumulated CDouble ?u ?v 0 46340 ex_wide)"
    using run_jobs_range [OF ex_wide_facts(1-5), of 0 46340 46341 CDouble]
    by (simp add: INT_MAX_def)
  let ?s = "accumulated CDouble ?u ?v 0 46340 ex_wide"
  have last: "SDR_FILTER CDouble ?s 46340 46341 = Some ?s"
    by (simp add: SDR_FILTER_def ex_wide_facts(1) last_job_range ex_block_def Let_def)
  have "ff_filter_execute (Some Sdr_dblp) 46341 ex_wide =
      run_jobs (SDR_FILTER CDouble) 46341 ([0..46339] @ [46340]) ex_wide"
    unfolding ff_filter_execute_def up by (simp add: call_filter_eq del: upto.simps)
  also have "\<dots> = Option.bind (run_jobs (SDR_FILTER CDouble) 46341 [0..46339] ex_wide)
      (run_jobs (SDR_FILTER CDouble) 46341 [46340])"
    by (rule run_jobs_append)
  also have "\<dots> = Some ?s"
    unfolding first by (simp add: last del: One_nat_def)
  finally have many: "ff_filter_execute (Some Sdr_dblp) 46341 ex_wide = Some ?s" .
  have s1: "sum_u (accumulated CDouble ?u ?v 0 46341 ex_wide) =
      Some (acc_energy CDouble ?u 0 46341 (replicate 46341 fp_zero))"
    and sn: "sum_u ?s = Some (acc_energy CDouble ?u 0 46340 (replicate 46341 fp_zero))"
    by (simp_all add: accumulated_def ex_wide_facts(6))
  have v1: "fp_eq (acc_energy CDouble ?u 0 46341 (replicate 46341 fp_zero) ! 46340) (fp_of_nat 1)"
    by (simp add: acc_energy_def ex_block_def block_energy_def fp_eval)
  have vn: "acc_energy CDouble ?u 0 46340 (replicate 46341 fp_zero) ! 46340 = fp_zero"
    by (simp add: acc_energy_def)
  have ne: "\<not> fp_eq (acc_energy CDouble ?u 0 46340 (replicate 46341 fp_zero) ! 46340)
              (acc_energy CDouble ?u 0 46341 (replicate 46341 fp_zero) ! 46340)"
    unfolding vn by (simp add: acc_energy_def ex_block_def block_energy_def fp_eval)
  show ?thesis
    using last_job_range cover one s1 many sn v1 vn ne by blast
qed

subsection \<open>Withdrawal (C3)\<close>



subsection \<open>Forwarding the reference block (C6)\<close>



subsection \<open>A disabled filter (C10)\<close>



subsection \<open>Steps without data (C7)\<close>

text \<open>
  C7.  In a step that gets past the macro and finds \<open>available = 0\<close>: when an input has
  a terminal status \<open>st\<close> with timestamp \<open>ts\<close> (the first input before the second),
  \<open>activate\<close> returns 0 and changes the context only by setting the output's status to
  \<open>(st, ts)\<close>; when neither has one and the output wants a frame, \<open>activate\<close> returns
  0 and changes the context only by requesting a frame from each input with no queued
  samples.  In both cases the accumulators are untouched.
\<close>

theorem activate_no_data:
  assumes "forward_status_back ctx = None"
    and "FFMIN (ff_inlink_queued_samples (inputs ctx 0))
               (ff_inlink_queued_samples (inputs ctx 1)) = 0"
  shows "(\<forall>st ts. in_status (input0 ctx) = Some (st, ts)
            \<or> in_status (input0 ctx) = None \<and> in_status (input1 ctx) = Some (st, ts) \<longrightarrow>
          activate forward_status_back ctx =
            Some (0, ctx\<lparr>output0 := (output0 ctx)\<lparr>out_status := Some (st, ts)\<rparr>\<rparr>))
    \<and> (in_status (input0 ctx) = None \<and> in_status (input1 ctx) = None
          \<and> out_frame_wanted (output0 ctx) \<longrightarrow>
          activate forward_status_back ctx =
            Some (0, ctx\<lparr>input0 := (if ff_inlink_queued_samples (input0 ctx) > 0
                                     then input0 ctx
                                     else (input0 ctx)\<lparr>in_frame_wanted := True\<rparr>),
                         input1 := (if ff_inlink_queued_samples (input1 ctx) > 0
                                     then input1 ctx
                                     else (input1 ctx)\<lparr>in_frame_wanted := True\<rparr>)\<rparr>))"
proof -
  have "FFMIN (ff_inlink_queued_samples (input0 ctx)) (ff_inlink_queued_samples (input1 ctx)) \<le> 0"
    using assms(2) by (simp add: inputs_def)
  from activate_idle [of forward_status_back ctx, OF assms(1) this] show ?thesis by auto
qed

theorem activate_no_data_witness:
  "activate (\<lambda>ctx. None) ex_ended =
     Some (0, ex_ended\<lparr>output0 := (output0 ex_ended)\<lparr>out_status := Some (- 541478725, 4)\<rparr>\<rparr>)"
proof -
  have h: "FFMIN (ff_inlink_queued_samples (inputs ex_ended 0))
                 (ff_inlink_queued_samples (inputs ex_ended 1)) = 0"
    by (simp add: ex_ended_def ex_defs config_output_def inputs_def FFMIN_def
        ff_inlink_queued_samples_def Let_def)
  have s: "in_status (input0 ex_ended) = Some (- 541478725, 4)"
    by (simp add: ex_ended_def ex_defs)
  show ?thesis
    using activate_no_data [of "\<lambda>ctx. None" ex_ended, OF refl h] s by simp
qed

subsection \<open>The reported value (C2)\<close>

text \<open>
  C2.  At teardown of a configured filter with \<open>c\<close> channels, \<open>uninit\<close> logs for every
  channel \<open>ch\<close> the double \<open>20. * log10(sum_u[ch] / sum_uv[ch])\<close> of the accumulated
  totals.  When the distortion total is zero and the energy total is greater than zero
  the value is positive infinity, and when both totals are zero it is NaN; neither is
  treated as an error.  The totals are those the filter computes, whose sign bit is
  never set (\<open>unsigned_totals_config\<close>, \<open>unsigned_totals_activate\<close>); \<open>L\<close> is the C
  library's \<open>log10\<close> on the positive finite numbers.
\<close>

theorem uninit_reports:
  assumes "channels (priv ctx) = c"
    and "sum_u (priv ctx) = Some au" "sum_uv (priv ctx) = Some auv"
    and "length au = nat c" "length auv = nat c"
    and "unsigned_totals (priv ctx)"
    and "0 \<le> ch" "ch < c"
  shows "\<exists>lines ctx'. uninit L ctx = Some (lines, ctx')
    \<and> length lines = nat c
    \<and> lines ! nat ch =
        (ch, fmul CDouble (fp_of_nat 20)
               (c_log10 L (fdiv CDouble (au ! nat ch) (auv ! nat ch))))
    \<and> (fp_eq (auv ! nat ch) fp_zero \<and> fp_lt fp_zero (au ! nat ch) \<longrightarrow>
          snd (lines ! nat ch) = Infinity False)
    \<and> (fp_eq (au ! nat ch) fp_zero \<and> fp_eq (auv ! nat ch) fp_zero \<longrightarrow>
          snd (lines ! nat ch) = NaN)
    \<and> sum_u (priv ctx') = None \<and> sum_uv (priv ctx') = None"
proof -
  let ?lines = "map (\<lambda>ch. (ch, sdr_db L (au ! nat ch) (auv ! nat ch))) [0..c - 1]"
  have ll: "log_loop L (priv ctx) [0..c - 1] = Some ?lines"
    using assms(2,3) _ _ _ by (rule log_loop_lines) (use assms(4,5,7,8) in simp_all)
  have n: "nat ch < length [0..c - 1]" "[0..c - 1] ! nat ch = ch"
    using assms(7,8) by simp_all
  have line: "?lines ! nat ch = (ch, sdr_db L (au ! nat ch) (auv ! nat ch))"
    using n by simp
  have sg: "\<not> fp_sign (auv ! nat ch)"
    using assms(3,2,5,6,7,8) by (simp add: unsigned_totals_def list_all_length)
  have len: "length ?lines = nat c" using assms(7,8) by simp
  show ?thesis
    using sg line len
    by (intro exI [of _ ?lines]
        exI [of _ "ctx\<lparr>priv := (priv ctx)\<lparr>cache_0 := None, cache_1 := None, sum_u := None, sum_uv := None\<rparr>\<rparr>"])
      (simp add: uninit_def ll assms(1) av_frame_free_def set_cache_def Let_def
        sdr_db_infinite sdr_db_nan sdr_db_def [symmetric] del: upto.simps)
qed

theorem uninit_reports_witness:
  "\<exists>ctx'. uninit (\<lambda>m e. fp_zero) (ex_finished (fp_of_nat 30) fp_zero) =
            Some ([(0, Infinity False)], ctx')"
proof -
  let ?ctx = "ex_finished (fp_of_nat 30) fp_zero"
  have h: "channels (priv ?ctx) = 1" "sum_u (priv ?ctx) = Some [fp_of_nat 30]"
    "sum_uv (priv ?ctx) = Some [fp_zero]" "length [fp_of_nat 30] = nat 1"
    "length [fp_zero] = nat 1" "unsigned_totals (priv ?ctx)" "(0::int) \<le> 0" "(0::int) < 1"
    by (simp_all add: ex_finished_def ex_priv_def unsigned_totals_def fp_of_nat_def fp_zero_def)
  obtain lines ctx' where r: "uninit (\<lambda>m e. fp_zero) ?ctx = Some (lines, ctx')"
    "length lines = nat 1" "fst (lines ! nat 0) = 0" "snd (lines ! nat 0) = Infinity False"
    using uninit_reports [OF h, of "\<lambda>m e. fp_zero"]
    by (auto simp: fp_of_nat_def fp_zero_def)
  obtain l where l: "lines = [l]" using r(2) by (cases lines) simp_all
  then have "l = (0, Infinity False)" using r(3,4) by (cases l) simp
  then show ?thesis using r(1) l by simp
qed

subsection \<open>Single-precision products (C5)\<close>

text \<open>
  C5, as the code has it.  In \<open>sdr_fltp\<close> the samples have type \<open>float\<close>, so the
  difference \<open>u - v\<close> and the products \<open>u * u\<close> and \<open>(u - v) * (u - v)\<close> are computed
  and rounded in single precision; each product is then converted to double and added
  to the double-precision local sum, which is added once to the channel's total.
\<close>

theorem sdr_fltp_sums:
  assumes "cache_0 s = Some u" "cache_1 s = Some v"
    and "wf_frame c nb u" "wf_frame c nb v" "0 \<le> c"
    and "sum_u s = Some au" "sum_uv s = Some auv" "length au = nat c" "length auv = nat c"
    and "0 \<le> jobnr" "jobnr < nb_jobs" "c * (jobnr + 1) \<le> INT_MAX"
  shows "\<exists>a b au' auv'.
      job_start c jobnr nb_jobs = Some a \<and> job_end c jobnr nb_jobs = Some b
    \<and> sdr_fltp s jobnr nb_jobs = Some (s\<lparr>sum_u := Some au', sum_uv := Some auv'\<rparr>)
    \<and> length au' = nat c \<and> length auv' = nat c
    \<and> (\<forall>ch. a \<le> ch \<and> ch < b \<longrightarrow>
          au' ! nat ch =
            fadd CDouble (au ! nat ch)
              (foldl (\<lambda>acc x. fadd CDouble acc (fp_cast CDouble (fmul CFloat x x))) fp_zero
                 (extended_data u ! nat ch))
        \<and> auv' ! nat ch =
            fadd CDouble (auv ! nat ch)
              (foldl (\<lambda>acc (x, y). fadd CDouble acc
                        (fp_cast CDouble (fmul CFloat (fsub CFloat x y) (fsub CFloat x y))))
                 fp_zero (zip (extended_data u ! nat ch) (extended_data v ! nat ch))))"
proof -
  obtain a b au' auv' where r:
    "job_start c jobnr nb_jobs = Some a" "job_end c jobnr nb_jobs = Some b"
    "SDR_FILTER CFloat s jobnr nb_jobs = Some (s\<lparr>sum_u := Some au', sum_uv := Some auv'\<rparr>)"
    "length au' = nat c" "length auv' = nat c"
    "\<forall>ch. 0 \<le> ch \<and> ch < c \<longrightarrow>
          (if a \<le> ch \<and> ch < b
           then au' ! nat ch =
                  fadd CDouble (au ! nat ch) (block_energy CFloat (extended_data u ! nat ch))
              \<and> auv' ! nat ch =
                  fadd CDouble (auv ! nat ch)
                    (block_distortion CFloat (extended_data u ! nat ch) (extended_data v ! nat ch))
           else au' ! nat ch = au ! nat ch \<and> auv' ! nat ch = auv ! nat ch)"
    using SDR_FILTER_pointwise [OF assms, of CFloat] by blast
  have n: "0 < nb_jobs" using assms(10,11) by simp
  have a: "0 \<le> a" using r(1) assms(5,10,11) job_bounds(1) [OF assms(5,10,11,12)]
    by (auto simp: pos_imp_zdiv_nonneg_iff)
  have b: "b \<le> c"
    using r(2) job_bounds(2) [OF assms(5,10,11,12)] shard_upper [OF assms(5) n, of "jobnr + 1"]
      assms(11)
    by simp
  have "au' ! nat ch =
            fadd CDouble (au ! nat ch)
              (foldl (\<lambda>acc x. fadd CDouble acc (fp_cast CDouble (fmul CFloat x x))) fp_zero
                 (extended_data u ! nat ch))
        \<and> auv' ! nat ch =
            fadd CDouble (auv ! nat ch)
              (foldl (\<lambda>acc (x, y). fadd CDouble acc
                        (fp_cast CDouble (fmul CFloat (fsub CFloat x y) (fsub CFloat x y))))
                 fp_zero (zip (extended_data u ! nat ch) (extended_data v ! nat ch)))"
    if "a \<le> ch" "ch < b" for ch
    using r(6) [rule_format, of ch] that a b
    by (simp add: block_energy_def block_distortion_def)
  then show ?thesis
    using r(1,2,3,4,5) by (intro exI [of _ a] exI [of _ b] exI [of _ au'] exI [of _ auv'])
      (simp add: sdr_fltp_def)
qed

theorem sdr_fltp_sums_witness:
  "\<exists>e d. sdr_fltp (ex_kernel Sdr_fltp 1 ex_ref_f ex_test_f) 0 1 =
            Some ((ex_kernel Sdr_fltp 1 ex_ref_f ex_test_f)\<lparr>sum_u := Some [e], sum_uv := Some [d]\<rparr>)
     \<and> fp_eq e (Finite False 4194305 (- 22)) \<and> fp_eq d (Finite False 4194305 (- 22))"
proof -
  let ?s = "ex_kernel Sdr_fltp 1 ex_ref_f ex_test_f"
  have h: "cache_0 ?s = Some (ex_block 1 ex_ref_f)" "cache_1 ?s = Some (ex_block 1 ex_test_f)"
    "wf_frame 1 1 (ex_block 1 ex_ref_f)" "wf_frame 1 1 (ex_block 1 ex_test_f)" "(0::int) \<le> 1"
    "sum_u ?s = Some [fp_zero]" "sum_uv ?s = Some [fp_zero]"
    "length [fp_zero] = nat 1" "length [fp_zero] = nat 1" "(0::int) \<le> 0" "(0::int) < 1"
    "(1::int) * (0 + 1) \<le> INT_MAX"
    by (simp_all add: ex_kernel_def ex_block_def ex_ref_f_def ex_test_f_def wf_frame_def
        INT_MAX_def)
  obtain a b au' auv' where r:
    "job_start 1 0 1 = Some a" "job_end 1 0 1 = Some b"
    "sdr_fltp ?s 0 1 = Some (?s\<lparr>sum_u := Some au', sum_uv := Some auv'\<rparr>)"
    "length au' = nat 1" "length auv' = nat 1"
    "\<forall>ch. a \<le> ch \<and> ch < b \<longrightarrow>
          au' ! nat ch =
            fadd CDouble ([fp_zero] ! nat ch)
              (foldl (\<lambda>acc x. fadd CDouble acc (fp_cast CDouble (fmul CFloat x x))) fp_zero
                 (extended_data (ex_block 1 ex_ref_f) ! nat ch))
        \<and> auv' ! nat ch =
            fadd CDouble ([fp_zero] ! nat ch)
              (foldl (\<lambda>acc (x, y). fadd CDouble acc
                        (fp_cast CDouble (fmul CFloat (fsub CFloat x y) (fsub CFloat x y))))
                 fp_zero (zip (extended_data (ex_block 1 ex_ref_f) ! nat ch)
                              (extended_data (ex_block 1 ex_test_f) ! nat ch)))"
    using sdr_fltp_sums [OF h] by blast
  have ab: "a = 0" "b = 1"
    using r(1,2)
    by (simp_all add: job_start_def job_end_def c_div_def c_mul_def c_add_def c_int_def INT_MIN_def)
  obtain e where e: "au' = [e]" using r(4) by (cases au') simp_all
  obtain d where d: "auv' = [d]" using r(5) by (cases auv') simp_all
  have "fp_eq e (Finite False 4194305 (- 22))" "fp_eq d (Finite False 4194305 (- 22))"
    using r(6) [rule_format, of 0]
    by (simp_all add: ab e d ex_block_def ex_ref_f_def ex_test_f_def fp_eval)
  moreover have "sdr_fltp ?s 0 1 = Some (?s\<lparr>sum_u := Some [e], sum_uv := Some [d]\<rparr>)"
    using r(3) unfolding e d .
  ultimately show ?thesis by (intro exI [of _ e] exI [of _ d] conjI)
qed

text \<open>
  C5 as stated fails.  For the sample \<open>1 + 2^-23\<close>, a single-precision number, against
  a silent test channel the kernel accumulates \<open>1 + 2^-22\<close>, the product rounded to
  single precision, in both totals; converting the samples to double first and squaring
  in double precision gives \<open>1 + 2^-22 + 2^-46\<close>.
\<close>

theorem sdr_fltp_rounds_products:
  "\<exists>e d. sdr_fltp (ex_kernel Sdr_fltp 1 ex_ref_f ex_test_f) 0 1 =
            Some ((ex_kernel Sdr_fltp 1 ex_ref_f ex_test_f)\<lparr>sum_u := Some [e], sum_uv := Some [d]\<rparr>)
     \<and> map (fp_cast CFloat) (hd ex_ref_f) = hd ex_ref_f
     \<and> fp_eq e (Finite False 4194305 (- 22))
     \<and> fp_eq (fadd CDouble fp_zero (block_energy CDouble (map (promote CFloat) (hd ex_ref_f))))
          (Finite False 70368760954881 (- 46))
     \<and> \<not> fp_eq e (fadd CDouble fp_zero (block_energy CDouble (map (promote CFloat) (hd ex_ref_f))))
     \<and> \<not> fp_eq d (fadd CDouble fp_zero
            (block_distortion CDouble (map (promote CFloat) (hd ex_ref_f))
               (map (promote CFloat) (hd ex_test_f))))"
proof -
  let ?s = "ex_kernel Sdr_fltp 1 ex_ref_f ex_test_f"
  let ?e = "fadd CDouble fp_zero (block_energy CFloat (hd ex_ref_f))"
  let ?d = "fadd CDouble fp_zero (block_distortion CFloat (hd ex_ref_f) (hd ex_test_f))"
  have h: "cache_0 ?s = Some (ex_block 1 ex_ref_f)" "cache_1 ?s = Some (ex_block 1 ex_test_f)"
    "wf_frame 1 1 (ex_block 1 ex_ref_f)" "wf_frame 1 1 (ex_block 1 ex_test_f)"
    "sum_u ?s = Some [fp_zero]" "sum_uv ?s = Some [fp_zero]"
    by (simp_all add: ex_kernel_def ex_block_def ex_ref_f_def ex_test_f_def wf_frame_def)
  have run: "sdr_fltp ?s 0 1 = Some (?s\<lparr>sum_u := Some [?e], sum_uv := Some [?d]\<rparr>)"
    using SDR_FILTER_single [OF h, of CFloat] by (simp add: sdr_fltp_def ex_block_def)
  have 1: "fp_eq ?e (Finite False 4194305 (- 22))"
    by (simp add: block_energy_def ex_ref_f_def fp_eval)
  have 2: "fp_eq (fadd CDouble fp_zero (block_energy CDouble (map (promote CFloat) (hd ex_ref_f))))
          (Finite False 70368760954881 (- 46))"
    by (simp add: block_energy_def ex_ref_f_def fp_eval)
  have 3: "\<not> fp_eq ?e (fadd CDouble fp_zero (block_energy CDouble (map (promote CFloat) (hd ex_ref_f))))"
    by (simp add: block_energy_def ex_ref_f_def fp_eval)
  have 4: "\<not> fp_eq ?d (fadd CDouble fp_zero
            (block_distortion CDouble (map (promote CFloat) (hd ex_ref_f))
               (map (promote CFloat) (hd ex_test_f))))"
    by (simp add: block_distortion_def ex_ref_f_def ex_test_f_def fp_eval)
  have 0: "map (fp_cast CFloat) (hd ex_ref_f) = hd ex_ref_f"
    by (simp add: ex_ref_f_def fp_eval)
  show ?thesis
    using run 0 1 2 3 4 by (intro exI [of _ ?e] exI [of _ ?d] conjI)
qed

subsection \<open>Monotone totals (C9)\<close>




subsection \<open>Configuration (C8)\<close>

lemma config_output_filter_fn:
  "filter_fn (priv (snd (config_output ok_u ok_uv ctx))) =
     Some (if in_format (inputs ctx 0) = AV_SAMPLE_FMT_FLTP then Sdr_fltp else Sdr_dblp)"
  by (simp add: config_output_def Let_def)

lemma config_output_ret:
  "fst (config_output ok_u ok_uv ctx) = (if ok_u \<and> ok_uv then 0 else AVERROR_ENOMEM)"
  by (simp add: config_output_def Let_def av_calloc_def)

text \<open>
  C8.  The filter lists exactly the planar float and the planar double format.  The
  configuration of the stream fails with the unsupported-format error for every other
  sample format; for these two it is what \<open>config_output\<close> returns, and whenever it
  reaches \<open>config_output\<close> the format is planar float, selecting \<open>sdr_fltp\<close>, or planar
  double, selecting \<open>sdr_dblp\<close>: no other format selects a kernel.  The check of the
  format is the host's negotiation; \<open>config_output\<close> itself has none.
\<close>

theorem configure_formats:
  "set ff_af_asdr_sample_fmts = {AV_SAMPLE_FMT_FLTP, AV_SAMPLE_FMT_DBLP}
   \<and> (in_format (input0 ctx) \<noteq> AV_SAMPLE_FMT_FLTP \<and> in_format (input0 ctx) \<noteq> AV_SAMPLE_FMT_DBLP
        \<longrightarrow> configure ok_u ok_uv ctx = Unsupported_format)
   \<and> (in_format (input0 ctx) = AV_SAMPLE_FMT_FLTP \<or> in_format (input0 ctx) = AV_SAMPLE_FMT_DBLP
        \<longrightarrow> configure ok_u ok_uv ctx =
              Config_output (fst (config_output ok_u ok_uv ctx)) (snd (config_output ok_u ok_uv ctx)))
   \<and> (\<forall>ret ctx'. configure ok_u ok_uv ctx = Config_output ret ctx' \<longrightarrow>
          (ret, ctx') = config_output ok_u ok_uv ctx
        \<and> (in_format (input0 ctx) = AV_SAMPLE_FMT_FLTP \<and> filter_fn (priv ctx') = Some Sdr_fltp
           \<or> in_format (input0 ctx) = AV_SAMPLE_FMT_DBLP \<and> filter_fn (priv ctx') = Some Sdr_dblp))"
proof (intro conjI allI impI)
  show "set ff_af_asdr_sample_fmts = {AV_SAMPLE_FMT_FLTP, AV_SAMPLE_FMT_DBLP}"
    by (simp add: ff_af_asdr_sample_fmts_def)
next
  assume "in_format (input0 ctx) \<noteq> AV_SAMPLE_FMT_FLTP \<and> in_format (input0 ctx) \<noteq> AV_SAMPLE_FMT_DBLP"
  then show "configure ok_u ok_uv ctx = Unsupported_format"
    by (simp add: configure_def ff_af_asdr_sample_fmts_def inputs_def)
next
  assume "in_format (input0 ctx) = AV_SAMPLE_FMT_FLTP \<or> in_format (input0 ctx) = AV_SAMPLE_FMT_DBLP"
  then show "configure ok_u ok_uv ctx =
      Config_output (fst (config_output ok_u ok_uv ctx)) (snd (config_output ok_u ok_uv ctx))"
    by (auto simp: configure_def ff_af_asdr_sample_fmts_def inputs_def split: prod.splits)
next
  fix ret ctx'
  assume r: "configure ok_u ok_uv ctx = Config_output ret ctx'"
  then have m: "in_format (input0 ctx) = AV_SAMPLE_FMT_FLTP \<or> in_format (input0 ctx) = AV_SAMPLE_FMT_DBLP"
    by (auto simp: configure_def ff_af_asdr_sample_fmts_def inputs_def split: if_splits)
  with r show co: "(ret, ctx') = config_output ok_u ok_uv ctx"
    by (auto simp: configure_def ff_af_asdr_sample_fmts_def inputs_def split: prod.splits)
  then have "ctx' = snd (config_output ok_u ok_uv ctx)" by (metis snd_conv)
  then have "filter_fn (priv ctx') =
      Some (if in_format (input0 ctx) = AV_SAMPLE_FMT_FLTP then Sdr_fltp else Sdr_dblp)"
    by (simp add: config_output_filter_fn inputs_def)
  then show "in_format (input0 ctx) = AV_SAMPLE_FMT_FLTP \<and> filter_fn (priv ctx') = Some Sdr_fltp
           \<or> in_format (input0 ctx) = AV_SAMPLE_FMT_DBLP \<and> filter_fn (priv ctx') = Some Sdr_dblp"
    using m by auto
qed

theorem configure_formats_witness:
  "configure True True (ex_ctx AV_SAMPLE_FMT_S16 ex_ref ex_test) = Unsupported_format
   \<and> (\<exists>ctx'. configure True True (ex_ctx AV_SAMPLE_FMT_FLTP ex_ref ex_test) = Config_output 0 ctx'
          \<and> filter_fn (priv ctx') = Some Sdr_fltp)
   \<and> (\<exists>ctx'. configure True True (ex_ctx AV_SAMPLE_FMT_DBLP ex_ref ex_test) = Config_output 0 ctx'
          \<and> filter_fn (priv ctx') = Some Sdr_dblp)"
proof -
  have f: "in_format (input0 (ex_ctx fmt ex_ref ex_test)) = fmt" for fmt
    by (simp add: ex_ctx_def ex_in_def)
  have 1: "configure True True (ex_ctx AV_SAMPLE_FMT_S16 ex_ref ex_test) = Unsupported_format"
    using configure_formats [of "ex_ctx AV_SAMPLE_FMT_S16 ex_ref ex_test" True True]
    by (simp add: f)
  have e: "\<exists>ctx'. configure True True (ex_ctx fmt ex_ref ex_test) = Config_output 0 ctx'"
    if "fmt \<in> set ff_af_asdr_sample_fmts" for fmt
    using that
    by (simp add: configure_def inputs_def f config_output_def av_calloc_def Let_def)
  have 2: "\<exists>ctx'. configure True True (ex_ctx AV_SAMPLE_FMT_FLTP ex_ref ex_test) = Config_output 0 ctx'
          \<and> filter_fn (priv ctx') = Some Sdr_fltp"
    using e [of AV_SAMPLE_FMT_FLTP]
      configure_formats [of "ex_ctx AV_SAMPLE_FMT_FLTP ex_ref ex_test" True True]
    by (auto simp: f ff_af_asdr_sample_fmts_def)
  have 3: "\<exists>ctx'. configure True True (ex_ctx AV_SAMPLE_FMT_DBLP ex_ref ex_test) = Config_output 0 ctx'
          \<and> filter_fn (priv ctx') = Some Sdr_dblp"
    using e [of AV_SAMPLE_FMT_DBLP]
      configure_formats [of "ex_ctx AV_SAMPLE_FMT_DBLP ex_ref ex_test" True True]
    by (auto simp: f ff_af_asdr_sample_fmts_def)
  show ?thesis using 1 2 3 by simp
qed

end
